theory Spec2Isabelle
  imports Main
begin

section \<open>Arrays\<close>

text \<open>
  The engine of \<^verbatim>\<open>vectorbt/base/combine_fns.py\<close> stacks NumPy arrays. An array is
  modelled by its dtype, its shape and its cells. Two dtypes whose values HOL represents
  exactly are covered: \<^verbatim>\<open>bool_\<close> (cells 0 and 1) and \<^verbatim>\<open>int64\<close>. A 2-dim array
  (\<^verbatim>\<open>tp.Array2d\<close>) stores its row count and the list of its columns, each column being
  the list of its cells from the first row to the last; the column count is the length
  of that list, so an array with no column still has a row count. \<^verbatim>\<open>tp.Array\<close> is a
  1-dim or a 2-dim array, as the docstrings of the source require.
\<close>

datatype np_dtype = NpBool | NpInt64

record array2d =
  dtype :: np_dtype
  nrows :: nat
  columns :: "int list list"

datatype ndarray = Array1d np_dtype "int list" | Array2d array2d

text \<open>\<^verbatim>\<open>a.shape[0]\<close> and \<^verbatim>\<open>a.shape[1]\<close> of a 2-dim array.\<close>

definition shape0 :: "array2d \<Rightarrow> nat" where
  "shape0 a = nrows a"

definition shape1 :: "array2d \<Rightarrow> nat" where
  "shape1 a = length (columns a)"

text \<open>The exceptions of the model: the two NumPy and Python raise, and whatever the
  caller's function raises.\<close>

datatype error = ValueError | IndexError | Raised string

text \<open>
  NumPy's conversion of one cell from a dtype to another (assignment and concatenation
  cast without a check): to \<^verbatim>\<open>bool_\<close> every non-zero value is \<^verbatim>\<open>True\<close>; a
  \<^verbatim>\<open>bool_\<close> becomes the integer 0 or 1. Between equal dtypes nothing is converted.
\<close>

definition cast_cell :: "np_dtype \<Rightarrow> np_dtype \<Rightarrow> int \<Rightarrow> int" where
  "cast_cell src dst x =
     (if src = dst then x
      else (case dst of NpBool \<Rightarrow> (if x = 0 then 0 else 1) | NpInt64 \<Rightarrow> x))"

definition cast_columns :: "np_dtype \<Rightarrow> np_dtype \<Rightarrow> int list list \<Rightarrow> int list list" where
  "cast_columns src dst cs = map (map (cast_cell src dst)) cs"

text \<open>\<^verbatim>\<open>np.promote_types\<close> and \<^verbatim>\<open>np.result_type\<close> on the two dtypes.\<close>

fun promote_types :: "np_dtype \<Rightarrow> np_dtype \<Rightarrow> np_dtype" where
  "promote_types NpBool NpBool = NpBool"
| "promote_types _ _ = NpInt64"

fun result_type :: "np_dtype list \<Rightarrow> np_dtype" where
  "result_type [] = NpBool"
| "result_type [d] = d"
| "result_type (d # ds) = promote_types d (result_type ds)"

text \<open>
  \<^verbatim>\<open>np.expand_dims(a, axis=1)\<close> of a 1-dim array of length \<open>m\<close>: the \<open>m\<close>-by-1 array
  of the same cells.
\<close>

definition expand_dims_axis1 :: "np_dtype \<Rightarrow> int list \<Rightarrow> array2d" where
  "expand_dims_axis1 d xs = \<lparr>dtype = d, nrows = length xs, columns = [xs]\<rparr>"

text \<open>
  \<^verbatim>\<open>to_2d_one_nb\<close> (lines 68-75): an array of more than one dimension is returned as
  it is, a 1-dim array gets a second axis.
\<close>

fun to_2d_one_nb :: "ndarray \<Rightarrow> array2d" where
  "to_2d_one_nb (Array2d a) = a"
| "to_2d_one_nb (Array1d d xs) = expand_dims_axis1 d xs"

text \<open>
  Modelled from the spec: \<^verbatim>\<open>reshape_fns.to_2d\<close>, the Buffer Normalizer of the
  repository, is not among the sources. The specification gives it as
  \<^verbatim>\<open>to_2d(buffer) -> 2-D buffer\<close> where rank-1 inputs become single-column, and a
  2-dim buffer is already normalized.
\<close>

fun to_2d :: "ndarray \<Rightarrow> array2d" where
  "to_2d (Array1d d xs) = \<lparr>dtype = d, nrows = length xs, columns = [xs]\<rparr>"
| "to_2d (Array2d a) = a"

text \<open>
  \<^verbatim>\<open>np.concatenate(arrays, axis=1)\<close> of 2-dim arrays: no array to concatenate is a
  \<^verbatim>\<open>ValueError\<close>, and so is a row count that differs from the first array's. The result
  has the promoted dtype and the columns of all arrays, in the order of the list.
\<close>

definition concatenated :: "array2d list \<Rightarrow> array2d" where
  "concatenated arrays =
     \<lparr>dtype = result_type (map dtype arrays),
      nrows = nrows (hd arrays),
      columns = concat (map (\<lambda>b. cast_columns (dtype b) (result_type (map dtype arrays)) (columns b)) arrays)\<rparr>"

definition np_concatenate_axis1 :: "array2d list \<Rightarrow> error + array2d" where
  "np_concatenate_axis1 arrays =
     (case arrays of
        [] \<Rightarrow> Inl ValueError
      | a # rest \<Rightarrow>
          if list_all (\<lambda>b. shape0 b = shape0 a) rest then Inr (concatenated arrays)
          else Inl ValueError)"

text \<open>
  \<^verbatim>\<open>np.column_stack(tup)\<close>: 1-dim arrays are turned into columns first, 2-dim arrays are
  stacked as they are, then everything is concatenated along axis 1.
\<close>

fun as_column :: "ndarray \<Rightarrow> array2d" where
  "as_column (Array1d d xs) = \<lparr>dtype = d, nrows = length xs, columns = [xs]\<rparr>"
| "as_column (Array2d a) = a"

definition np_column_stack :: "ndarray list \<Rightarrow> error + array2d" where
  "np_column_stack tup = np_concatenate_axis1 (map as_column tup)"

text \<open>
  \<^verbatim>\<open>np.empty((r, c), dtype=d)\<close> allocates without initialising. The cells of the fresh
  buffer are whatever the memory held; the model takes that content as the parameter
  \<open>junk\<close>, and every theorem holds for each value of it.
\<close>

definition np_empty :: "int \<Rightarrow> nat \<Rightarrow> nat \<Rightarrow> np_dtype \<Rightarrow> array2d" where
  "np_empty junk r c d = \<lparr>dtype = d, nrows = r, columns = replicate c (replicate r junk)\<rparr>"

text \<open>
  The slice assignment \<^verbatim>\<open>output[:, start:stop] = src\<close> with \<open>src\<close> 2-dim. The slice is
  clipped to the buffer as Python clips slices. NumPy broadcasts \<open>src\<close> to the shape of
  the selected block: each axis of \<open>src\<close> must have the extent of the block or extent 1
  (which is then repeated), otherwise the assignment raises \<^verbatim>\<open>ValueError\<close>. The cells
  are cast to the dtype of the buffer.
\<close>

definition broadcast_column :: "array2d \<Rightarrow> array2d \<Rightarrow> nat \<Rightarrow> nat \<Rightarrow> int list" where
  "broadcast_column output src w k =
     (let col = (if shape1 src = w then columns src ! k else columns src ! 0);
          col' = (if shape0 src = shape0 output then col else replicate (shape0 output) (col ! 0))
      in map (cast_cell (dtype src) (dtype output)) col')"

definition setitem_columns :: "array2d \<Rightarrow> nat \<Rightarrow> nat \<Rightarrow> array2d \<Rightarrow> error + array2d" where
  "setitem_columns output start stop src =
     (let lo = min start (shape1 output);
          hi = min stop (shape1 output);
          w = hi - lo
      in if (shape0 src = shape0 output \<or> shape0 src = 1) \<and> (shape1 src = w \<or> shape1 src = 1)
         then Inr (output\<lparr>columns :=
                     take lo (columns output) @ map (broadcast_column output src w) [0..<w]
                       @ drop (lo + w) (columns output)\<rparr>)
         else Inl ValueError)"

text \<open>
  The buffer after the column block of iteration \<open>i\<close> has been overwritten with \<open>src\<close>,
  cast to the dtype of the buffer: what the slice assignment of the compiled executors
  yields when \<open>src\<close> has the shape of the block.
\<close>

definition with_block :: "nat \<Rightarrow> array2d \<Rightarrow> array2d \<Rightarrow> array2d" where
  "with_block i output src =
     output\<lparr>columns := take (i * shape1 src) (columns output)
                 @ cast_columns (dtype src) (dtype output) (columns src)
                 @ drop ((i + 1) * shape1 src) (columns output)\<rparr>"

section \<open>Functions supplied by the caller\<close>

text \<open>
  \<^verbatim>\<open>apply_func\<close> and \<^verbatim>\<open>combine_func\<close> are arbitrary Python callables: they may change
  state (the discard variants exist for in-place outputs) and they may raise. A call is a
  function from the state before to an outcome and the state after. The shared
  \<^verbatim>\<open>*args\<close> and \<^verbatim>\<open>**kwargs\<close> are passed unchanged to every call; they are part of the
  function value handed to the model. The iteration count is a natural number:
  \<^verbatim>\<open>range(n)\<close> runs over \<open>[0..<n]\<close>. The progress bar (\<^verbatim>\<open>tqdm\<close>) iterates the same range
  and is left out. \<^verbatim>\<open>register_jit\<close> is taken to preserve the meaning of the function it
  decorates.
\<close>

type_synonym ('s, 'a) prog = "'s \<Rightarrow> (error + 'a) \<times> 's"

text \<open>The outcomes of calling \<open>f\<close> at the indices of a list, one after the other, up to
  the first exception.\<close>

fun run_calls :: "(nat \<Rightarrow> ('s, 'r) prog) \<Rightarrow> nat list \<Rightarrow> ('s, 'r list) prog" where
  "run_calls f [] s = (Inr [], s)"
| "run_calls f (i # is) s =
     (case f i s of
        (Inl e, s') \<Rightarrow> (Inl e, s')
      | (Inr r, s') \<Rightarrow>
          (case run_calls f is s' of
             (Inl e, s'') \<Rightarrow> (Inl e, s'')
           | (Inr rs, s'') \<Rightarrow> (Inr (r # rs), s'')))"

text \<open>A call counter: the wrapped function appends the index it is called with to a
  log kept beside the caller's state.\<close>

definition traced :: "(nat \<Rightarrow> ('s, 'r) prog) \<Rightarrow> nat \<Rightarrow> ('s \<times> nat list, 'r) prog" where
  "traced f i = (\<lambda>(s, calls). case f i s of (r, s') \<Rightarrow> (r, (s', calls @ [i])))"

section \<open>Discard arity\<close>

text \<open>\<^verbatim>\<open>apply_and_concat_none\<close> (lines 20-32) and \<^verbatim>\<open>apply_and_concat_none_nb\<close>
  (lines 35-45): the same loop, the result of each call is dropped.\<close>

fun none_loop :: "(nat \<Rightarrow> ('s, 'r) prog) \<Rightarrow> nat list \<Rightarrow> ('s, unit) prog" where
  "none_loop apply_func [] s = (Inr (), s)"
| "none_loop apply_func (i # is) s =
     (case apply_func i s of
        (Inl e, s') \<Rightarrow> (Inl e, s')
      | (Inr _, s') \<Rightarrow> none_loop apply_func is s')"

definition apply_and_concat_none :: "nat \<Rightarrow> (nat \<Rightarrow> ('s, 'r) prog) \<Rightarrow> ('s, unit) prog" where
  "apply_and_concat_none n apply_func = none_loop apply_func [0..<n]"

definition apply_and_concat_none_nb :: "nat \<Rightarrow> (nat \<Rightarrow> ('s, 'r) prog) \<Rightarrow> ('s, unit) prog" where
  "apply_and_concat_none_nb n apply_func_nb = none_loop apply_func_nb [0..<n]"

section \<open>Single-stack arity\<close>

text \<open>\<^verbatim>\<open>apply_and_concat_one\<close> (lines 48-64): the loop appends the normalized result of
  each call to \<open>outputs\<close>, then the list is stacked.\<close>

fun one_loop :: "(nat \<Rightarrow> ('s, ndarray) prog) \<Rightarrow> nat list \<Rightarrow> array2d list \<Rightarrow> ('s, array2d list) prog" where
  "one_loop apply_func [] outputs s = (Inr outputs, s)"
| "one_loop apply_func (i # is) outputs s =
     (case apply_func i s of
        (Inl e, s') \<Rightarrow> (Inl e, s')
      | (Inr a, s') \<Rightarrow> one_loop apply_func is (outputs @ [to_2d a]) s')"

definition apply_and_concat_one :: "nat \<Rightarrow> (nat \<Rightarrow> ('s, ndarray) prog) \<Rightarrow> ('s, array2d) prog" where
  "apply_and_concat_one n apply_func s =
     (case one_loop apply_func [0..<n] [] s of
        (Inl e, s') \<Rightarrow> (Inl e, s')
      | (Inr outputs, s') \<Rightarrow> (np_column_stack (map Array2d outputs), s'))"

text \<open>\<^verbatim>\<open>apply_and_concat_one_nb\<close> (lines 78-95): iteration 0 is computed first, the
  buffer is allocated from its shape and dtype, and every iteration is written into its
  column slice. The result of iteration 0 is reused in the loop.\<close>

fun one_nb_loop :: "(nat \<Rightarrow> ('s, ndarray) prog) \<Rightarrow> array2d \<Rightarrow> nat list \<Rightarrow> array2d \<Rightarrow> ('s, array2d) prog" where
  "one_nb_loop apply_func_nb output_0 [] output s = (Inr output, s)"
| "one_nb_loop apply_func_nb output_0 (i # is) output s =
     (case (if i = 0 then (Inr output_0, s)
            else (case apply_func_nb i s of
                    (Inl e, s') \<Rightarrow> (Inl e, s')
                  | (Inr a, s') \<Rightarrow> (Inr (to_2d_one_nb a), s'))) of
        (Inl e, s') \<Rightarrow> (Inl e, s')
      | (Inr outputs_i, s') \<Rightarrow>
          (case setitem_columns output (i * shape1 outputs_i) ((i + 1) * shape1 outputs_i) outputs_i of
             Inl e \<Rightarrow> (Inl e, s')
           | Inr output' \<Rightarrow> one_nb_loop apply_func_nb output_0 is output' s'))"

definition apply_and_concat_one_nb :: "int \<Rightarrow> nat \<Rightarrow> (nat \<Rightarrow> ('s, ndarray) prog) \<Rightarrow> ('s, array2d) prog" where
  "apply_and_concat_one_nb junk n apply_func_nb s =
     (case apply_func_nb 0 s of
        (Inl e, s') \<Rightarrow> (Inl e, s')
      | (Inr a, s') \<Rightarrow>
          (let output_0 = to_2d_one_nb a;
               output = np_empty junk (shape0 output_0) (n * shape1 output_0) (dtype output_0)
           in one_nb_loop apply_func_nb output_0 [0..<n] output s'))"

section \<open>Multi-stack arity\<close>

text \<open>\<^verbatim>\<open>zip(*outputs)\<close>: the \<open>j\<close>-th element is the list of the \<open>j\<close>-th components of
  all tuples; \<^verbatim>\<open>zip\<close> stops at the shortest tuple, and yields nothing for no tuple.\<close>

definition zip_star :: "'a list list \<Rightarrow> 'a list list" where
  "zip_star xss =
     (case xss of
        [] \<Rightarrow> []
      | xs # rest \<Rightarrow>
          map (\<lambda>j. map (\<lambda>ys. ys ! j) xss) [0..<fold min (map length rest) (length xs)])"

text \<open>\<^verbatim>\<open>list(map(g, xs))\<close> for a \<open>g\<close> that may raise: the first exception ends it.\<close>

fun map_result :: "('a \<Rightarrow> error + 'b) \<Rightarrow> 'a list \<Rightarrow> error + 'b list" where
  "map_result g [] = Inr []"
| "map_result g (x # xs) =
     (case g x of
        Inl e \<Rightarrow> Inl e
      | Inr y \<Rightarrow> (case map_result g xs of Inl e \<Rightarrow> Inl e | Inr ys \<Rightarrow> Inr (y # ys)))"

text \<open>\<^verbatim>\<open>apply_and_concat_multiple\<close> (lines 98-111): each call returns a tuple of arrays;
  the tuples are normalized element by element, then stacked position by position.\<close>

fun multiple_loop :: "(nat \<Rightarrow> ('s, ndarray list) prog) \<Rightarrow> nat list \<Rightarrow> array2d list list \<Rightarrow> ('s, array2d list list) prog" where
  "multiple_loop apply_func [] outputs s = (Inr outputs, s)"
| "multiple_loop apply_func (i # is) outputs s =
     (case apply_func i s of
        (Inl e, s') \<Rightarrow> (Inl e, s')
      | (Inr t, s') \<Rightarrow> multiple_loop apply_func is (outputs @ [map to_2d t]) s')"

definition apply_and_concat_multiple :: "nat \<Rightarrow> (nat \<Rightarrow> ('s, ndarray list) prog) \<Rightarrow> ('s, array2d list) prog" where
  "apply_and_concat_multiple n apply_func s =
     (case multiple_loop apply_func [0..<n] [] s of
        (Inl e, s') \<Rightarrow> (Inl e, s')
      | (Inr outputs, s') \<Rightarrow> (map_result np_column_stack (map (map Array2d) (zip_star outputs)), s'))"

text \<open>\<^verbatim>\<open>to_2d_multiple_nb\<close> (lines 114-124): the list of the normalized arrays.\<close>

definition to_2d_multiple_nb :: "ndarray list \<Rightarrow> array2d list" where
  "to_2d_multiple_nb a = map to_2d_one_nb a"

text \<open>\<^verbatim>\<open>apply_and_concat_multiple_nb\<close> (lines 127-148). The inner loop writes the \<open>j\<close>-th
  array of iteration \<open>i\<close> into the \<open>j\<close>-th buffer; \<^verbatim>\<open>outputs[j]\<close> raises \<^verbatim>\<open>IndexError\<close>
  when iteration \<open>i\<close> returned more arrays than iteration 0.\<close>

fun multiple_nb_positions :: "nat \<Rightarrow> array2d list \<Rightarrow> nat list \<Rightarrow> array2d list \<Rightarrow> error + array2d list" where
  "multiple_nb_positions i outputs_i [] outputs = Inr outputs"
| "multiple_nb_positions i outputs_i (j # js) outputs =
     (if j < length outputs then
        (case setitem_columns (outputs ! j) (i * shape1 (outputs_i ! j))
                ((i + 1) * shape1 (outputs_i ! j)) (outputs_i ! j) of
           Inl e \<Rightarrow> Inl e
         | Inr b \<Rightarrow> multiple_nb_positions i outputs_i js (outputs[j := b]))
      else Inl IndexError)"

fun multiple_nb_loop :: "(nat \<Rightarrow> ('s, ndarray list) prog) \<Rightarrow> array2d list \<Rightarrow> nat list \<Rightarrow> array2d list \<Rightarrow> ('s, array2d list) prog" where
  "multiple_nb_loop apply_func_nb outputs_0 [] outputs s = (Inr outputs, s)"
| "multiple_nb_loop apply_func_nb outputs_0 (i # is) outputs s =
     (case (if i = 0 then (Inr outputs_0, s)
            else (case apply_func_nb i s of
                    (Inl e, s') \<Rightarrow> (Inl e, s')
                  | (Inr t, s') \<Rightarrow> (Inr (to_2d_multiple_nb t), s'))) of
        (Inl e, s') \<Rightarrow> (Inl e, s')
      | (Inr outputs_i, s') \<Rightarrow>
          (case multiple_nb_positions i outputs_i [0..<length outputs_i] outputs of
             Inl e \<Rightarrow> (Inl e, s')
           | Inr outputs' \<Rightarrow> multiple_nb_loop apply_func_nb outputs_0 is outputs' s'))"

definition apply_and_concat_multiple_nb :: "int \<Rightarrow> nat \<Rightarrow> (nat \<Rightarrow> ('s, ndarray list) prog) \<Rightarrow> ('s, array2d list) prog" where
  "apply_and_concat_multiple_nb junk n apply_func_nb s =
     (case apply_func_nb 0 s of
        (Inl e, s') \<Rightarrow> (Inl e, s')
      | (Inr t, s') \<Rightarrow>
          (let outputs_0 = to_2d_multiple_nb t;
               outputs = map (\<lambda>a. np_empty junk (shape0 a) (n * shape1 a) (dtype a)) outputs_0
           in multiple_nb_loop apply_func_nb outputs_0 [0..<n] outputs s'))"

section \<open>Combine adapters\<close>

text \<open>\<^verbatim>\<open>select_and_combine\<close> (lines 151-153) and \<^verbatim>\<open>select_and_combine_nb\<close>
  (lines 164-174); \<^verbatim>\<open>others[i]\<close> raises \<^verbatim>\<open>IndexError\<close> past the end.\<close>

definition select_and_combine :: "nat \<Rightarrow> 'o \<Rightarrow> 'c list \<Rightarrow> ('o \<Rightarrow> 'c \<Rightarrow> ('s, 'r) prog) \<Rightarrow> ('s, 'r) prog" where
  "select_and_combine i obj others combine_func s =
     (if i < length others then combine_func obj (others ! i) s else (Inl IndexError, s))"

definition select_and_combine_nb :: "nat \<Rightarrow> 'o \<Rightarrow> 'c list \<Rightarrow> ('o \<Rightarrow> 'c \<Rightarrow> ('s, 'r) prog) \<Rightarrow> ('s, 'r) prog" where
  "select_and_combine_nb i obj others combine_func_nb s =
     (if i < length others then combine_func_nb obj (others ! i) s else (Inl IndexError, s))"

text \<open>\<^verbatim>\<open>combine_and_concat\<close> (lines 156-161) and \<^verbatim>\<open>combine_and_concat_nb\<close>
  (lines 177-180).\<close>

definition combine_and_concat :: "'o \<Rightarrow> 'c list \<Rightarrow> ('o \<Rightarrow> 'c \<Rightarrow> ('s, ndarray) prog) \<Rightarrow> ('s, array2d) prog" where
  "combine_and_concat obj others combine_func =
     apply_and_concat_one (length others) (\<lambda>i. select_and_combine i obj others combine_func)"

definition combine_and_concat_nb :: "int \<Rightarrow> 'o \<Rightarrow> 'c list \<Rightarrow> ('o \<Rightarrow> 'c \<Rightarrow> ('s, ndarray) prog) \<Rightarrow> ('s, array2d) prog" where
  "combine_and_concat_nb junk obj others combine_func_nb =
     apply_and_concat_one_nb junk (length others) (\<lambda>i. select_and_combine_nb i obj others combine_func_nb)"

text \<open>\<^verbatim>\<open>combine_multiple\<close> (lines 183-188) and \<^verbatim>\<open>combine_multiple_nb\<close> (lines 191-204):
  \<^verbatim>\<open>objs[0]\<close> raises \<^verbatim>\<open>IndexError\<close> on an empty sequence; the loop runs over
  \<^verbatim>\<open>range(1, len(objs))\<close>.\<close>

fun combine_loop :: "('a \<Rightarrow> 'a \<Rightarrow> ('s, 'a) prog) \<Rightarrow> 'a list \<Rightarrow> nat list \<Rightarrow> 'a \<Rightarrow> ('s, 'a) prog" where
  "combine_loop combine_func objs [] result s = (Inr result, s)"
| "combine_loop combine_func objs (i # is) result s =
     (if i < length objs then
        (case combine_func result (objs ! i) s of
           (Inl e, s') \<Rightarrow> (Inl e, s')
         | (Inr result', s') \<Rightarrow> combine_loop combine_func objs is result' s')
      else (Inl IndexError, s))"

definition combine_multiple :: "'a list \<Rightarrow> ('a \<Rightarrow> 'a \<Rightarrow> ('s, 'a) prog) \<Rightarrow> ('s, 'a) prog" where
  "combine_multiple objs combine_func s =
     (if 0 < length objs then combine_loop combine_func objs [1..<length objs] (objs ! 0) s
      else (Inl IndexError, s))"

definition combine_multiple_nb :: "'a list \<Rightarrow> ('a \<Rightarrow> 'a \<Rightarrow> ('s, 'a) prog) \<Rightarrow> ('s, 'a) prog" where
  "combine_multiple_nb objs combine_func_nb s =
     (if 0 < length objs then combine_loop combine_func_nb objs [1..<length objs] (objs ! 0) s
      else (Inl IndexError, s))"

text \<open>The pairwise left fold in the specification's words: start from the first object
  and combine the result so far with each further object, from left to right.\<close>

fun left_fold :: "('a \<Rightarrow> 'a \<Rightarrow> ('s, 'a) prog) \<Rightarrow> 'a \<Rightarrow> 'a list \<Rightarrow> ('s, 'a) prog" where
  "left_fold f result [] s = (Inr result, s)"
| "left_fold f result (x # xs) s =
     (case f result x s of
        (Inl e, s') \<Rightarrow> (Inl e, s')
      | (Inr result', s') \<Rightarrow> left_fold f result' xs s')"

text \<open>A call counter for a combine function, kept beside the caller's state.\<close>

definition counted :: "('a \<Rightarrow> 'b \<Rightarrow> ('s, 'r) prog) \<Rightarrow> 'a \<Rightarrow> 'b \<Rightarrow> ('s \<times> nat, 'r) prog" where
  "counted f x y = (\<lambda>(s, k). case f x y s of (r, s') \<Rightarrow> (r, (s', Suc k)))"

section \<open>Distributed variants\<close>

text \<open>
  \<^verbatim>\<open>apply_and_concat_one_ray\<close> (lines 207-210) and \<^verbatim>\<open>apply_and_concat_multiple_ray\<close>
  (lines 213-216) pass all their arguments to \<^verbatim>\<open>run_ntimes_using_ray\<close> and stack the
  list it returns. That helper lives in \<^verbatim>\<open>vectorbt.utils.parallel\<close>, which is not among
  the sources, so it is a parameter here: the call with the executor's arguments, giving
  the list of results or an exception.
\<close>

definition apply_and_concat_one_ray :: "('s, ndarray list) prog \<Rightarrow> ('s, array2d) prog" where
  "apply_and_concat_one_ray run_ntimes_using_ray s =
     (case run_ntimes_using_ray s of
        (Inl e, s') \<Rightarrow> (Inl e, s')
      | (Inr results, s') \<Rightarrow> (np_column_stack (map Array2d (map to_2d results)), s'))"

definition apply_and_concat_multiple_ray :: "('s, ndarray list list) prog \<Rightarrow> ('s, array2d list) prog" where
  "apply_and_concat_multiple_ray run_ntimes_using_ray s =
     (case run_ntimes_using_ray s of
        (Inl e, s') \<Rightarrow> (Inl e, s')
      | (Inr results, s') \<Rightarrow> (map_result np_column_stack (zip_star results), s'))"

text \<open>
  Modelled from the spec: \<^verbatim>\<open>run_ntimes_using_ray\<close> and the remote task runtime behind it
  are not among the sources. The specification gives the interface as
  \<^verbatim>\<open>submit_many(n, fn, *args, **kwargs) -> ordered_results\<close>: the \<open>n\<close> invocations are
  delegated to a runtime that runs them as independent, stateless tasks, which can
  complete out of submission order, and one result per iteration is returned in index
  order. Here the tasks for the indices \<open>0, ..., n - 1\<close> are submitted, they have no side
  effect and do not raise, and they complete in the order \<open>completion [0..<n]\<close>; each result
  is kept under the index of its task, and the results are read out by ascending index.
  A task that never completes is a remote failure of the whole batch.
\<close>

definition completed_tasks :: "(nat list \<Rightarrow> nat list) \<Rightarrow> nat \<Rightarrow> (nat \<Rightarrow> 'r) \<Rightarrow> (nat \<times> 'r) list" where
  "completed_tasks completion n fn = map (\<lambda>i. (i, fn i)) (completion [0..<n])"

definition submit_many :: "(nat list \<Rightarrow> nat list) \<Rightarrow> nat \<Rightarrow> (nat \<Rightarrow> 'r) \<Rightarrow> ('s, 'r list) prog" where
  "submit_many completion n fn s =
     (case those (map (map_of (completed_tasks completion n fn)) [0..<n]) of
        None \<Rightarrow> (Inl (Raised ''remote failure''), s)
      | Some ordered_results \<Rightarrow> (Inr ordered_results, s))"

section \<open>Apply functions used as concrete inputs\<close>

text \<open>An apply function without side effects that always returns.\<close>

definition pure_apply :: "(nat \<Rightarrow> 'r) \<Rightarrow> nat \<Rightarrow> ('s, 'r) prog" where
  "pure_apply g i s = (Inr (g i), s)"

text \<open>An in-place apply function: it adds its index to a running total and returns
  nothing.\<close>

definition add_index :: "nat \<Rightarrow> (nat, unit) prog" where
  "add_index i acc = (Inr (), acc + i)"

text \<open>Iteration \<open>i\<close> returns the 1-dim \<^verbatim>\<open>int64\<close> array \<open>[i, i + 10]\<close>: all iterations
  agree in row count, column count and dtype.\<close>

definition index_column :: "nat \<Rightarrow> ndarray" where
  "index_column i = Array1d NpInt64 [int i, int i + 10]"

text \<open>Iteration 1 returns a 2-dim array of two columns, the others a 1-dim array: the
  column counts differ, the row count is 2 throughout.\<close>

definition mixed_widths :: "nat \<Rightarrow> ndarray" where
  "mixed_widths i =
     (if i = 1 then Array2d \<lparr>dtype = NpInt64, nrows = 2, columns = [[1, 2], [3, 4]]\<rparr>
      else Array1d NpInt64 [int i, int i + 10])"

text \<open>Iteration \<open>i\<close> returns a 2-tuple of 1-dim \<^verbatim>\<open>int64\<close> arrays of length 2, each
  normalized to a single column.\<close>

definition pair_of_columns :: "nat \<Rightarrow> ndarray list" where
  "pair_of_columns i =
     [Array1d NpInt64 [int i, int i + 10], Array1d NpInt64 [int i + 20, int i + 30]]"




text \<open>A combine function without side effects that always returns.\<close>

definition pure_combine :: "('a \<Rightarrow> 'b \<Rightarrow> 'r) \<Rightarrow> 'a \<Rightarrow> 'b \<Rightarrow> ('s, 'r) prog" where
  "pure_combine g x y s = (Inr (g x y), s)"

text \<open>A combine function: it adds the candidate to every cell of the pivot.\<close>

definition add_scalar :: "int list \<Rightarrow> int \<Rightarrow> ndarray" where
  "add_scalar obj c = Array1d NpInt64 (map (\<lambda>x. x + c) obj)"

section \<open>Call counts of the discard arity\<close>

lemma none_loop_traced:
  "run_calls f is s = (Inr rs, s') \<Longrightarrow>
   none_loop (traced f) is (s, calls) = (Inr (), (s', calls @ is))"
proof (induction "is" arbitrary: s calls rs)
  case Nil
  then show ?case by simp
next
  case (Cons i "is")
  from Cons.prems obtain r s1 rs' where
    step: "f i s = (Inr r, s1)" and rest: "run_calls f is s1 = (Inr rs', s')"
    by (auto split: prod.splits sum.splits)
  from Cons.IH [OF rest, of "calls @ [i]"] step show ?case
    by (simp add: traced_def)
qed

text \<open>
  C9. For every \<open>n\<close>, when the \<open>n\<close> calls in a row return, both discard operations call
  the apply function exactly at the indices \<open>0, 1, ..., n - 1\<close>, in this order and once
  each (the call log grows by \<open>[0..<n]\<close>), leave the state the calls produce, and return
  nothing.
\<close>

theorem apply_and_concat_none_calls:
  assumes "run_calls f [0..<n] s = (Inr rs, s')"
  shows "apply_and_concat_none n (traced f) (s, calls) = (Inr (), (s', calls @ [0..<n]))
       \<and> apply_and_concat_none_nb n (traced f) (s, calls) = (Inr (), (s', calls @ [0..<n]))"
  using none_loop_traced [OF assms]
  by (simp add: apply_and_concat_none_def apply_and_concat_none_nb_def)

theorem apply_and_concat_none_calls_witness:
  "apply_and_concat_none 3 (traced add_index) (0, []) = (Inr (), (3, [0, 1, 2]))
   \<and> apply_and_concat_none_nb 3 (traced add_index) (0, []) = (Inr (), (3, [0, 1, 2]))"
proof -
  have h: "run_calls add_index [0..<3] 0 = (Inr [(), (), ()], 3)"
    by (simp add: upt_rec add_index_def)
  have u: "[0..<3] = [0, 1, 2::nat]"
    by (simp add: upt_rec)
  show ?thesis
    using apply_and_concat_none_calls [OF h, of "[]"] by (simp add: u)
qed

section \<open>The pairwise fold\<close>

lemma combine_loop_left_fold:
  "k \<le> length objs \<Longrightarrow>
   combine_loop f objs [k..<length objs] r s = left_fold f r (drop k objs) s"
proof (induction "length objs - k" arbitrary: k r s)
  case 0
  then show ?case by simp
next
  case (Suc m)
  then have lt: "k < length objs" by simp
  then have u: "[k..<length objs] = k # [Suc k..<length objs]"
    by (simp add: upt_conv_Cons)
  have d: "drop k objs = objs ! k # drop (Suc k) objs"
    using lt by (simp add: Cons_nth_drop_Suc)
  have ih: "\<And>r' s'. combine_loop f objs [Suc k..<length objs] r' s'
              = left_fold f r' (drop (Suc k) objs) s'"
    using Suc.hyps(1) [of "Suc k"] Suc.hyps(2) lt by simp
  show ?case
    using lt by (simp add: u d ih split: prod.splits sum.splits)
qed

lemma left_fold_pure:
  "left_fold (pure_combine g) r xs s = (Inr (foldl g r xs), s)"
  by (induction xs arbitrary: r) (simp_all add: pure_combine_def)

text \<open>
  C6. On a non-empty sequence \<^verbatim>\<open>combine_multiple\<close> is the left fold of the combine
  function: a single object is returned unchanged and the combine function is not called
  (its call counter and the state stay as they were); three objects give
  \<open>f (f a b) c\<close>, the second call receiving the result of the first; and in general the
  outcome is that of \<open>left_fold\<close>, which for a function without side effects is
  \<open>foldl\<close>. The compiled variant is the same fold.
\<close>

theorem combine_multiple_left_fold:
  "combine_multiple [a] (counted f) (s, k) = (Inr a, (s, k))
   \<and> combine_multiple [a, b, c] f s =
       (case f a b s of (Inl e, s1) \<Rightarrow> (Inl e, s1) | (Inr r, s1) \<Rightarrow> f r c s1)
   \<and> combine_multiple [a, b, c] (pure_combine g) s = (Inr (g (g a b) c), s)
   \<and> combine_multiple (a # rest) f s = left_fold f a rest s
   \<and> combine_multiple (a # rest) (pure_combine g) s = (Inr (foldl g a rest), s)
   \<and> combine_multiple_nb (a # rest) f s = left_fold f a rest s"
proof -
  have gen: "combine_multiple (a # rest) f s = left_fold f a rest s"
    for f :: "'a \<Rightarrow> 'a \<Rightarrow> ('s, 'a) prog" and a rest s
    using combine_loop_left_fold [of 1 "a # rest" f a s]
    by (simp add: combine_multiple_def)
  have gen_nb: "combine_multiple_nb (a # rest) f s = left_fold f a rest s"
    using combine_loop_left_fold [of 1 "a # rest" f a s]
    by (simp add: combine_multiple_nb_def)
  have one: "combine_multiple [a] (counted f) (s, k) = (Inr a, (s, k))"
    by (simp add: combine_multiple_def)
  have three: "combine_multiple [a, b, c] f s =
       (case f a b s of (Inl e, s1) \<Rightarrow> (Inl e, s1) | (Inr r, s1) \<Rightarrow> f r c s1)"
    by (simp add: gen split: prod.splits sum.splits)
  have three_pure: "combine_multiple [a, b, c] (pure_combine g) s = (Inr (g (g a b) c), s)"
    by (simp add: gen pure_combine_def)
  have gen_pure: "combine_multiple (a # rest) (pure_combine g) s = (Inr (foldl g a rest), s)"
    by (simp add: gen left_fold_pure)
  from one three three_pure gen [of a rest f s] gen_pure gen_nb show ?thesis
    by (intro conjI)
qed

text \<open>Subtraction is not associative, so the grouping is visible: the fold of
  \<open>[10, 3, 2]\<close> is \<open>(10 - 3) - 2 = 5\<close>, while \<open>10 - (3 - 2) = 9\<close>.\<close>

theorem combine_multiple_left_fold_witness:
  "combine_multiple [10, 3, 2 :: int] (pure_combine (\<lambda>x y. x - y)) () = (Inr 5, ())
   \<and> 10 - (3 - 2) = (9 :: int)"
  using combine_multiple_left_fold [of "10 :: int" "pure_combine (\<lambda>x y. x - y)" "()" 0 3 2 "\<lambda>x y. x - y" "[3, 2]"]
  by (simp add: pure_combine_def)

section \<open>Facts about the array operations\<close>

lemma cast_cell_same [simp]: "cast_cell d d x = x"
  by (simp add: cast_cell_def)

lemma cast_columns_same [simp]: "cast_columns d d cs = cs"
  by (simp add: cast_columns_def map_idI)

lemma length_cast_columns [simp]: "length (cast_columns a b cs) = length cs"
  by (simp add: cast_columns_def)

lemma map_nth_upt: "map (\<lambda>k. g (xs ! k)) [0..<length xs] = map g xs"
proof -
  have "map (\<lambda>k. g (xs ! k)) [0..<length xs] = map g (map ((!) xs) [0..<length xs])"
    by (simp add: comp_def)
  also have "\<dots> = map g xs"
    by (simp only: map_nth)
  finally show ?thesis .
qed

lemma broadcast_block:
  assumes "shape0 src = shape0 out" "shape1 src = C"
  shows "map (broadcast_column out src C) [0..<C]
         = cast_columns (dtype src) (dtype out) (columns src)"
proof -
  have "map (broadcast_column out src C) [0..<C]
        = map (\<lambda>k. map (cast_cell (dtype src) (dtype out)) (columns src ! k)) [0..<length (columns src)]"
    using assms by (simp add: broadcast_column_def shape1_def)
  then show ?thesis
    by (simp add: map_nth_upt cast_columns_def)
qed

lemma setitem_columns_block:
  assumes "shape0 src = shape0 out" "shape1 src = C" "(i + 1) * C \<le> shape1 out"
  shows "setitem_columns out (i * C) ((i + 1) * C) src
         = Inr (out\<lparr>columns := take (i * C) (columns out)
                  @ cast_columns (dtype src) (dtype out) (columns src)
                  @ drop ((i + 1) * C) (columns out)\<rparr>)"
proof -
  have lo: "min (i * C) (shape1 out) = i * C"
    using assms(3) by simp
  have hi: "min ((i + 1) * C) (shape1 out) = (i + 1) * C"
    using assms(3) by simp
  have w: "(i + 1) * C - i * C = C"
    by simp
  show ?thesis
    unfolding setitem_columns_def Let_def lo hi w
    using assms(1,2) broadcast_block [OF assms(1,2)]
    by (simp add: add.commute)
qed

section \<open>The compiled single-stack loop\<close>

lemma run_calls_Cons_Inr:
  assumes "run_calls f (i # is) s = (Inr rs, s')"
  obtains r s1 rs' where "f i s = (Inr r, s1)" "run_calls f is s1 = (Inr rs', s')" "rs = r # rs'"
  using assms by (auto split: prod.splits sum.splits)

lemma one_nb_loop_blocks:
  assumes "run_calls f [k..<m] s = (Inr rs, s')"
    and "0 < k" and "k \<le> m" and "m \<le> n"
    and "\<forall>r\<in>set rs. shape0 (to_2d_one_nb r) = shape0 out \<and> shape1 (to_2d_one_nb r) = C"
    and "shape1 out = n * C"
  shows "one_nb_loop f o0 [k..<m] out s
         = (Inr (out\<lparr>columns := take (k * C) (columns out)
                   @ concat (map (\<lambda>r. cast_columns (dtype (to_2d_one_nb r)) (dtype out)
                                       (columns (to_2d_one_nb r))) rs)
                   @ drop (m * C) (columns out)\<rparr>), s')"
  using assms
proof (induction "m - k" arbitrary: k out s rs)
  case 0
  then have "k = m" by simp
  with 0 show ?case by simp
next
  case (Suc d)
  then have lt: "k < m" by simp
  then have u: "[k..<m] = k # [Suc k..<m]"
    by (simp add: upt_conv_Cons)
  from Suc.prems(1) obtain r s1 rs' where
    call: "f k s = (Inr r, s1)" and rest: "run_calls f [Suc k..<m] s1 = (Inr rs', s')"
    and rs: "rs = r # rs'"
    unfolding u by (rule run_calls_Cons_Inr)
  let ?src = "to_2d_one_nb r"
  have src: "shape0 ?src = shape0 out" "shape1 ?src = C"
    using Suc.prems(5) rs by simp_all
  have "k + 1 \<le> n"
    using lt Suc.prems(4) by simp
  then have "(k + 1) * C \<le> n * C"
    by (rule mult_le_mono1)
  then have fits: "(k + 1) * C \<le> shape1 out"
    using Suc.prems(6) by simp
  define out' where "out' = out\<lparr>columns := take (k * C) (columns out)
       @ cast_columns (dtype ?src) (dtype out) (columns ?src) @ drop ((k + 1) * C) (columns out)\<rparr>"
  have set: "setitem_columns out (k * shape1 ?src) ((k + 1) * shape1 ?src) ?src = Inr out'"
    using setitem_columns_block [OF src fits] by (simp add: src out'_def)
  have len_src: "length (columns ?src) = C"
    using src(2) by (simp add: shape1_def)
  have kc: "k * C \<le> length (columns out)"
    using fits by (simp add: shape1_def)
  have out'_shape: "shape0 out' = shape0 out" "shape1 out' = n * C" "dtype out' = dtype out"
    using fits Suc.prems(6) kc len_src by (simp_all add: out'_def shape0_def shape1_def)
  have ih: "one_nb_loop f o0 [Suc k..<m] out' s1
         = (Inr (out'\<lparr>columns := take (Suc k * C) (columns out')
                   @ concat (map (\<lambda>r. cast_columns (dtype (to_2d_one_nb r)) (dtype out')
                                       (columns (to_2d_one_nb r))) rs')
                   @ drop (m * C) (columns out')\<rparr>), s')"
  proof (rule Suc.hyps(1))
    show "d = m - Suc k" using Suc.hyps(2) by simp
    show "run_calls f [Suc k..<m] s1 = (Inr rs', s')" by (rule rest)
    show "0 < Suc k" by simp
    show "Suc k \<le> m" using lt by simp
    show "m \<le> n" by (rule Suc.prems(4))
    show "\<forall>r\<in>set rs'. shape0 (to_2d_one_nb r) = shape0 out' \<and> shape1 (to_2d_one_nb r) = C"
      using Suc.prems(5) rs out'_shape(1) by simp
    show "shape1 out' = n * C" by (rule out'_shape(2))
  qed
  have tk: "take (Suc k * C) (columns out')
            = take (k * C) (columns out) @ cast_columns (dtype ?src) (dtype out) (columns ?src)"
    using kc len_src by (simp add: out'_def)
  have "k + 1 \<le> m"
    using lt by simp
  then have mc: "(k + 1) * C \<le> m * C"
    by (rule mult_le_mono1)
  have dr: "drop (m * C) (columns out') = drop (m * C) (columns out)"
  proof -
    have "m * C = (k * C + C) + (m * C - (k + 1) * C)"
      using mc by simp
    then obtain e where e: "m * C = (k * C + C) + e" ..
    show ?thesis
      using kc len_src by (simp add: out'_def e add.commute)
  qed
  have step: "one_nb_loop f o0 [k..<m] out s = one_nb_loop f o0 [Suc k..<m] out' s1"
    using Suc.prems(2) call set by (simp add: u)
  show ?case
    unfolding step ih tk dr rs
    by (simp add: out'_def out'_shape)
qed

lemma run_calls_length:
  "run_calls f is s = (Inr rs, s') \<Longrightarrow> length rs = length is"
proof (induction "is" arbitrary: s rs)
  case Nil
  then show ?case by simp
next
  case (Cons i "is")
  from Cons.prems obtain r s1 rs' where
    "run_calls f is s1 = (Inr rs', s')" "rs = r # rs'"
    by (rule run_calls_Cons_Inr)
  with Cons.IH show ?case by simp
qed

lemma to_2d_one_nb_eq: "to_2d_one_nb a = to_2d a"
  by (cases a) (simp_all add: expand_dims_axis1_def)

lemma apply_and_concat_one_nb_blocks:
  assumes run: "run_calls f [0..<n] s = (Inr rs, s')"
    and n: "0 < n"
    and shapes: "\<forall>r\<in>set rs. shape0 (to_2d_one_nb r) = R \<and> shape1 (to_2d_one_nb r) = C"
  shows "apply_and_concat_one_nb junk n f s
         = (Inr \<lparr>dtype = dtype (to_2d_one_nb (hd rs)), nrows = R,
                 columns = concat (map (\<lambda>r. cast_columns (dtype (to_2d_one_nb r))
                                      (dtype (to_2d_one_nb (hd rs))) (columns (to_2d_one_nb r))) rs)\<rparr>, s')"
proof -
  have u: "[0..<n] = 0 # [Suc 0..<n]"
    using n by (simp add: upt_conv_Cons)
  from run obtain a s0 rs' where
    call: "f 0 s = (Inr a, s0)" and rest: "run_calls f [Suc 0..<n] s0 = (Inr rs', s')"
    and rs: "rs = a # rs'"
    unfolding u by (rule run_calls_Cons_Inr)
  let ?o0 = "to_2d_one_nb a"
  let ?D = "dtype ?o0"
  define out where "out = np_empty junk (shape0 ?o0) (n * shape1 ?o0) ?D"
  have o0: "shape0 ?o0 = R" "shape1 ?o0 = C"
    using shapes rs by simp_all
  have out_shape: "shape0 out = R" "shape1 out = n * C" "dtype out = ?D"
    by (simp_all add: out_def np_empty_def shape0_def shape1_def o0 [unfolded shape0_def shape1_def])
  have len0: "length (columns ?o0) = C"
    using o0(2) by (simp add: shape1_def)
  have "0 + 1 \<le> n"
    using n by simp
  then have "(0 + 1) * C \<le> n * C"
    by (rule mult_le_mono1)
  then have fits: "(0 + 1) * C \<le> shape1 out"
    using out_shape(2) by simp
  define out1 where "out1 = out\<lparr>columns := columns ?o0 @ drop C (columns out)\<rparr>"
  have "setitem_columns out (0 * C) ((0 + 1) * C) ?o0 = Inr out1"
    using setitem_columns_block [of ?o0 out C 0] o0 out_shape fits
    by (simp add: out1_def)
  then have set0: "setitem_columns out (0 * shape1 ?o0) ((0 + 1) * shape1 ?o0) ?o0 = Inr out1"
    by (simp add: o0)
  have cn: "C \<le> length (columns out)"
    using fits by (simp add: shape1_def)
  have out1_shape: "shape0 out1 = R" "shape1 out1 = n * C" "dtype out1 = ?D"
    using out_shape cn len0 by (simp_all add: out1_def shape0_def shape1_def)
  have loop: "one_nb_loop f ?o0 [Suc 0..<n] out1 s0
         = (Inr (out1\<lparr>columns := take (Suc 0 * C) (columns out1)
                   @ concat (map (\<lambda>r. cast_columns (dtype (to_2d_one_nb r)) (dtype out1)
                                       (columns (to_2d_one_nb r))) rs')
                   @ drop (n * C) (columns out1)\<rparr>), s')"
  proof (rule one_nb_loop_blocks [OF rest])
    show "0 < Suc 0" by simp
    show "Suc 0 \<le> n" using n by simp
    show "n \<le> n" by simp
    show "\<forall>r\<in>set rs'. shape0 (to_2d_one_nb r) = shape0 out1 \<and> shape1 (to_2d_one_nb r) = C"
      using shapes rs out1_shape(1) by simp
    show "shape1 out1 = n * C" by (rule out1_shape(2))
  qed
  have tk: "take (Suc 0 * C) (columns out1) = columns ?o0"
    using len0 by (simp add: out1_def)
  have dr: "drop (n * C) (columns out1) = []"
    using out1_shape(2) by (simp add: shape1_def)
  have "apply_and_concat_one_nb junk n f s = one_nb_loop f ?o0 [Suc 0..<n] out1 s0"
    using call set0 by (simp add: apply_and_concat_one_nb_def u out_def [symmetric] Let_def)
  also have "\<dots> = (Inr (out1\<lparr>columns := columns ?o0
                   @ concat (map (\<lambda>r. cast_columns (dtype (to_2d_one_nb r)) ?D
                                       (columns (to_2d_one_nb r))) rs')\<rparr>), s')"
    unfolding loop tk dr by (simp add: out1_shape(3))
  also have "\<dots> = (Inr \<lparr>dtype = ?D, nrows = R,
                 columns = concat (map (\<lambda>r. cast_columns (dtype (to_2d_one_nb r)) ?D
                                      (columns (to_2d_one_nb r))) rs)\<rparr>, s')"
    using out1_shape(1,3) by (simp add: rs shape0_def out1_def)
  finally show ?thesis
    by (simp add: rs)
qed

section \<open>The sequential single-stack executor\<close>

lemma one_loop_run_calls:
  "one_loop f is acc s =
     (case run_calls f is s of
        (Inl e, s') \<Rightarrow> (Inl e, s')
      | (Inr rs, s') \<Rightarrow> (Inr (acc @ map to_2d rs), s'))"
  by (induction "is" arbitrary: acc s) (auto split: prod.splits sum.splits)

lemma np_column_stack_2d: "np_column_stack (map Array2d outs) = np_concatenate_axis1 outs"
  by (simp add: np_column_stack_def comp_def)

lemma np_concatenate_axis1_same_rows:
  assumes "outs \<noteq> []" and "\<forall>a\<in>set outs. shape0 a = R"
  shows "np_concatenate_axis1 outs
         = Inr \<lparr>dtype = result_type (map dtype outs), nrows = R,
                columns = concat (map (\<lambda>b. cast_columns (dtype b) (result_type (map dtype outs))
                                           (columns b)) outs)\<rparr>"
proof -
  from assms(1) obtain a rest where outs: "outs = a # rest"
    by (cases outs) auto
  have "list_all (\<lambda>b. shape0 b = shape0 a) rest"
    using assms(2) by (simp add: outs list_all_iff)
  moreover have "nrows a = R"
    using assms(2) by (simp add: outs shape0_def)
  ultimately show ?thesis
    by (simp add: np_concatenate_axis1_def concatenated_def outs)
qed

lemma np_concatenate_axis1_rows_differ:
  assumes "a \<in> set outs" and "shape0 a \<noteq> shape0 (hd outs)"
  shows "np_concatenate_axis1 outs = Inl ValueError"
proof -
  from assms(1) obtain b rest where outs: "outs = b # rest"
    by (cases outs) auto
  have "a \<in> set rest"
    using assms by (auto simp: outs)
  then have "\<not> list_all (\<lambda>c. shape0 c = shape0 b) rest"
    using assms(2) by (auto simp: outs list_all_iff)
  then show ?thesis
    by (simp add: np_concatenate_axis1_def outs)
qed

lemma apply_and_concat_one_stack:
  assumes run: "run_calls f [0..<n] s = (Inr rs, s')"
    and n: "0 < n"
    and rows: "\<forall>r\<in>set rs. shape0 (to_2d r) = R"
  shows "apply_and_concat_one n f s
         = (Inr \<lparr>dtype = result_type (map (\<lambda>r. dtype (to_2d r)) rs), nrows = R,
                 columns = concat (map (\<lambda>r. cast_columns (dtype (to_2d r))
                                      (result_type (map (\<lambda>r. dtype (to_2d r)) rs))
                                      (columns (to_2d r))) rs)\<rparr>, s')"
proof -
  have "length rs = n"
    using run_calls_length [OF run] by simp
  then have ne: "map to_2d rs \<noteq> []"
    using n by auto
  have all: "\<forall>a\<in>set (map to_2d rs). shape0 a = R"
    using rows by simp
  have "apply_and_concat_one n f s = (np_column_stack (map Array2d (map to_2d rs)), s')"
    using run by (simp add: apply_and_concat_one_def one_loop_run_calls)
  also have "np_column_stack (map Array2d (map to_2d rs)) = np_concatenate_axis1 (map to_2d rs)"
    by (rule np_column_stack_2d)
  finally show ?thesis
    using np_concatenate_axis1_same_rows [OF ne all] by (simp add: comp_def)
qed

lemma concat_block:
  assumes "i < length xss"
  shows "take (length (xss ! i)) (drop (length (concat (take i xss))) (concat xss)) = xss ! i"
proof -
  have "xss = take i xss @ xss ! i # drop (Suc i) xss"
    using assms by (rule id_take_nth_drop)
  then have "concat xss = concat (take i xss) @ xss ! i @ concat (drop (Suc i) xss)"
    by (metis concat.simps(2) concat_append)
  then show ?thesis
    by simp
qed

lemma result_type_same:
  "ds \<noteq> [] \<Longrightarrow> \<forall>d\<in>set ds. d = D \<Longrightarrow> result_type ds = D"
proof (induction ds rule: result_type.induct)
  case 1
  then show ?case by simp
next
  case (2 d)
  then show ?case by simp
next
  case (3 d v va)
  then show ?case by (cases D) simp_all
qed

lemma apply_and_concat_one_blocks:
  assumes "0 < n"
    and "run_calls f [0..<n] s = (Inr rs, s')"
    and "\<forall>r\<in>set rs. shape0 (to_2d r) = R"
  shows "\<exists>out. apply_and_concat_one n f s = (Inr out, s')
            \<and> nrows out = R
            \<and> dtype out = result_type (map (\<lambda>r. dtype (to_2d r)) rs)
            \<and> columns out = concat (map (\<lambda>r. cast_columns (dtype (to_2d r)) (dtype out)
                                               (columns (to_2d r))) rs)
            \<and> (\<forall>i<n. take (shape1 (to_2d (rs ! i)))
                          (drop (sum_list (map (\<lambda>r. shape1 (to_2d r)) (take i rs))) (columns out))
                        = cast_columns (dtype (to_2d (rs ! i))) (dtype out) (columns (to_2d (rs ! i))))"
proof -
  let ?D = "result_type (map (\<lambda>r. dtype (to_2d r)) rs)"
  let ?g = "\<lambda>r. cast_columns (dtype (to_2d r)) ?D (columns (to_2d r))"
  let ?out = "\<lparr>dtype = ?D, nrows = R, columns = concat (map ?g rs)\<rparr>"
  have res: "apply_and_concat_one n f s = (Inr ?out, s')"
    using assms(2,1,3) by (rule apply_and_concat_one_stack)
  have len: "length rs = n"
    using run_calls_length [OF assms(2)] by simp
  have block: "take (shape1 (to_2d (rs ! i)))
                 (drop (sum_list (map (\<lambda>r. shape1 (to_2d r)) (take i rs))) (concat (map ?g rs)))
               = ?g (rs ! i)" if "i < n" for i
  proof -
    have i: "i < length (map ?g rs)"
      using that len by simp
    have off: "length (concat (take i (map ?g rs)))
               = sum_list (map (\<lambda>r. shape1 (to_2d r)) (take i rs))"
      by (simp add: length_concat take_map comp_def shape1_def)
    have wid: "length (map ?g rs ! i) = shape1 (to_2d (rs ! i))"
      using that len by (simp add: shape1_def)
    show ?thesis
      using concat_block [OF i] that len by (simp only: off wid) simp
  qed
  have "nrows ?out = R \<and> dtype ?out = ?D \<and> columns ?out = concat (map (\<lambda>r. cast_columns (dtype (to_2d r)) (dtype ?out) (columns (to_2d r))) rs)
       \<and> (\<forall>i<n. take (shape1 (to_2d (rs ! i)))
                          (drop (sum_list (map (\<lambda>r. shape1 (to_2d r)) (take i rs))) (columns ?out))
                        = cast_columns (dtype (to_2d (rs ! i))) (dtype ?out) (columns (to_2d (rs ! i))))"
    using block by simp
  with res show ?thesis
    by (intro exI [of _ ?out]) simp
qed


text \<open>
  C5. For \<open>n \<ge> 1\<close>, when the \<open>n\<close> calls return arrays whose normalized forms share the
  row count \<open>R\<close>, \<^verbatim>\<open>apply_and_concat_one\<close> returns the array of \<open>R\<close> rows whose columns
  are the columns of the normalized results of iteration 0, then of iteration 1, and so
  on (cast to the common dtype, as \<^verbatim>\<open>np.column_stack\<close> does): the block of iteration
  \<open>i\<close> starts after the columns of all earlier iterations and is as wide as the result
  of iteration \<open>i\<close>. Normalizing turns a 1-dim array of length \<open>m\<close> into the \<open>m\<close>-by-1
  array of the same cells and leaves a 2-dim array as it is.
\<close>

theorem apply_and_concat_one_columns:
  assumes "0 < n"
    and "run_calls f [0..<n] s = (Inr rs, s')"
    and "\<forall>r\<in>set rs. shape0 (to_2d r) = R"
  shows "to_2d (Array1d d xs) = \<lparr>dtype = d, nrows = length xs, columns = [xs]\<rparr>
       \<and> to_2d (Array2d a) = a
       \<and> (\<exists>out. apply_and_concat_one n f s = (Inr out, s')
            \<and> nrows out = R
            \<and> dtype out = result_type (map (\<lambda>r. dtype (to_2d r)) rs)
            \<and> columns out = concat (map (\<lambda>r. cast_columns (dtype (to_2d r)) (dtype out)
                                               (columns (to_2d r))) rs)
            \<and> (\<forall>i<n. take (shape1 (to_2d (rs ! i)))
                          (drop (sum_list (map (\<lambda>r. shape1 (to_2d r)) (take i rs))) (columns out))
                        = cast_columns (dtype (to_2d (rs ! i))) (dtype out) (columns (to_2d (rs ! i)))))"
  using apply_and_concat_one_blocks [OF assms] by simp


lemma upt_0_3: "[0..<3] = [0, 1, 2 :: nat]"
  by (simp add: upt_rec)

theorem apply_and_concat_one_columns_witness:
  "apply_and_concat_one 3 (pure_apply mixed_widths) ()
   = (Inr \<lparr>dtype = NpInt64, nrows = 2, columns = [[0, 10], [1, 2], [3, 4], [2, 12]]\<rparr>, ())"
proof -
  have run: "run_calls (pure_apply mixed_widths) [0..<3] ()
             = (Inr [mixed_widths 0, mixed_widths 1, mixed_widths 2], ())"
    by (simp add: upt_0_3 pure_apply_def)
  have rows: "\<forall>r\<in>set [mixed_widths 0, mixed_widths 1, mixed_widths 2]. shape0 (to_2d r) = 2"
    by (simp add: mixed_widths_def shape0_def)
  have pos: "0 < (3 :: nat)"
    by simp
  from apply_and_concat_one_columns [OF pos run rows] obtain out where
    res: "apply_and_concat_one 3 (pure_apply mixed_widths) () = (Inr out, ())"
    and r: "nrows out = 2"
    and d: "dtype out = result_type (map (\<lambda>r. dtype (to_2d r)) [mixed_widths 0, mixed_widths 1, mixed_widths 2])"
    and c: "columns out = concat (map (\<lambda>r. cast_columns (dtype (to_2d r)) (dtype out) (columns (to_2d r)))
                                    [mixed_widths 0, mixed_widths 1, mixed_widths 2])"
    by blast
  have d': "dtype out = NpInt64"
    using d by (simp add: mixed_widths_def)
  have c': "columns out = [[0, 10], [1, 2], [3, 4], [2, 12]]"
    using c by (simp add: d' mixed_widths_def)
  have "out = \<lparr>dtype = NpInt64, nrows = 2, columns = [[0, 10], [1, 2], [3, 4], [2, 12]]\<rparr>"
    using r d' c' by simp
  with res show ?thesis
    by simp
qed

text \<open>
  C1. For \<open>n \<ge> 1\<close>, when the \<open>n\<close> calls return arrays whose normalized forms all have
  the same row count, column count and dtype, \<^verbatim>\<open>apply_and_concat_one_nb\<close> and
  \<^verbatim>\<open>apply_and_concat_one\<close> give the same outcome: the same buffer (dtype, shape and
  cells, whatever the fresh buffer held) and the same final state. Both return that
  buffer; neither fails.
\<close>

theorem apply_and_concat_one_nb_eq_one:
  assumes "0 < n"
    and "run_calls f [0..<n] s = (Inr rs, s')"
    and "\<forall>r\<in>set rs. shape0 (to_2d r) = R \<and> shape1 (to_2d r) = C \<and> dtype (to_2d r) = D"
  shows "apply_and_concat_one_nb junk n f s = apply_and_concat_one n f s
       \<and> apply_and_concat_one n f s
           = (Inr \<lparr>dtype = D, nrows = R, columns = concat (map (\<lambda>r. columns (to_2d r)) rs)\<rparr>, s')"
proof -
  have len: "length rs = n"
    using run_calls_length [OF assms(2)] by simp
  then have ne: "rs \<noteq> []"
    using assms(1) by auto
  then have hd_in: "hd rs \<in> set rs"
    by simp
  have D0: "dtype (to_2d (hd rs)) = D"
    using assms(3) hd_in by simp
  have casts: "map (\<lambda>r. cast_columns (dtype (to_2d r)) D (columns (to_2d r))) rs
               = map (\<lambda>r. columns (to_2d r)) rs"
    using assms(3) by simp
  have rt: "result_type (map (\<lambda>r. dtype (to_2d r)) rs) = D"
    using ne assms(3) by (intro result_type_same) simp_all
  have shapes_nb: "\<forall>r\<in>set rs. shape0 (to_2d_one_nb r) = R \<and> shape1 (to_2d_one_nb r) = C"
    using assms(3) by (simp add: to_2d_one_nb_eq)
  have nb: "apply_and_concat_one_nb junk n f s
            = (Inr \<lparr>dtype = D, nrows = R, columns = concat (map (\<lambda>r. columns (to_2d r)) rs)\<rparr>, s')"
    using apply_and_concat_one_nb_blocks [OF assms(2,1) shapes_nb, of junk]
    by (simp add: D0 to_2d_one_nb_eq casts)
  have rows: "\<forall>r\<in>set rs. shape0 (to_2d r) = R"
    using assms(3) by simp
  have seq: "apply_and_concat_one n f s
            = (Inr \<lparr>dtype = D, nrows = R, columns = concat (map (\<lambda>r. columns (to_2d r)) rs)\<rparr>, s')"
    using apply_and_concat_one_stack [OF assms(2,1) rows]
    by (simp add: rt casts)
  show ?thesis
    using nb seq by simp
qed

theorem apply_and_concat_one_nb_eq_one_witness:
  "apply_and_concat_one_nb 99 3 (pure_apply index_column) ()
     = apply_and_concat_one 3 (pure_apply index_column) ()
   \<and> apply_and_concat_one 3 (pure_apply index_column) ()
     = (Inr \<lparr>dtype = NpInt64, nrows = 2, columns = [[0, 10], [1, 11], [2, 12]]\<rparr>, ())"
proof -
  have run: "run_calls (pure_apply index_column) [0..<3] ()
             = (Inr [index_column 0, index_column 1, index_column 2], ())"
    by (simp add: upt_0_3 pure_apply_def)
  have homog: "\<forall>r\<in>set [index_column 0, index_column 1, index_column 2].
                 shape0 (to_2d r) = 2 \<and> shape1 (to_2d r) = 1 \<and> dtype (to_2d r) = NpInt64"
    by (simp add: index_column_def shape0_def shape1_def)
  have pos: "0 < (3 :: nat)"
    by simp
  show ?thesis
    using apply_and_concat_one_nb_eq_one [OF pos run homog, of 99]
    by (simp add: index_column_def)
qed

section \<open>Call counts of the compiled executors\<close>

lemma traced_apply:
  "traced f i (s, calls) = (case f i s of (r, s') \<Rightarrow> (r, (s', calls @ [i])))"
  by (simp add: traced_def)

lemma one_nb_loop_traced:
  "one_nb_loop (traced f) o0 is out (s, calls) = (Inr r, (s', calls'))
   \<Longrightarrow> calls' = calls @ filter (\<lambda>i. i \<noteq> 0) is"
proof (induction "is" arbitrary: out s calls)
  case Nil
  then show ?case by simp
next
  case (Cons i "is")
  show ?case
  proof (cases "i = 0")
    case True
    with Cons.prems obtain out' where
      "one_nb_loop (traced f) o0 is out' (s, calls) = (Inr r, (s', calls'))"
      by (auto split: sum.splits)
    from Cons.IH [OF this] True show ?thesis by simp
  next
    case False
    with Cons.prems obtain out' s1 where
      "one_nb_loop (traced f) o0 is out' (s1, calls @ [i]) = (Inr r, (s', calls'))"
      by (auto simp: traced_apply split: sum.splits prod.splits)
    from Cons.IH [OF this] False show ?thesis by simp
  qed
qed

lemma multiple_nb_loop_traced:
  "multiple_nb_loop (traced f) o0 is outs (s, calls) = (Inr r, (s', calls'))
   \<Longrightarrow> calls' = calls @ filter (\<lambda>i. i \<noteq> 0) is"
proof (induction "is" arbitrary: outs s calls)
  case Nil
  then show ?case by simp
next
  case (Cons i "is")
  show ?case
  proof (cases "i = 0")
    case True
    with Cons.prems obtain outs' where
      "multiple_nb_loop (traced f) o0 is outs' (s, calls) = (Inr r, (s', calls'))"
      by (auto split: sum.splits)
    from Cons.IH [OF this] True show ?thesis by simp
  next
    case False
    with Cons.prems obtain outs' s1 where
      "multiple_nb_loop (traced f) o0 is outs' (s1, calls @ [i]) = (Inr r, (s', calls'))"
      by (auto simp: traced_apply split: sum.splits prod.splits)
    from Cons.IH [OF this] False show ?thesis by simp
  qed
qed

lemma one_nb_loop_traced_prefix:
  "\<exists>m. snd (snd (one_nb_loop (traced f) o0 is out (s, calls)))
        = calls @ take m (filter (\<lambda>i. i \<noteq> 0) is)"
proof (induction "is" arbitrary: out s calls)
  case Nil
  then show ?case by simp
next
  case (Cons i "is")
  show ?case
  proof (cases "i = 0")
    case True
    show ?thesis
    proof (cases "setitem_columns out (i * shape1 o0) ((i + 1) * shape1 o0) o0")
      case (Inl e)
      with True have "snd (snd (one_nb_loop (traced f) o0 (i # is) out (s, calls)))
                      = calls @ take 0 (filter (\<lambda>i. i \<noteq> 0) (i # is))"
        by simp
      then show ?thesis ..
    next
      case (Inr out')
      from Cons.IH [of out' s calls] obtain m where
        "snd (snd (one_nb_loop (traced f) o0 is out' (s, calls)))
         = calls @ take m (filter (\<lambda>i. i \<noteq> 0) is)" ..
      with True Inr have "snd (snd (one_nb_loop (traced f) o0 (i # is) out (s, calls)))
                      = calls @ take m (filter (\<lambda>i. i \<noteq> 0) (i # is))"
        by simp
      then show ?thesis ..
    qed
  next
    case False
    obtain r s1 where call: "f i s = (r, s1)"
      by (cases "f i s")
    have stop: "\<exists>m. calls @ [i] = calls @ take m (filter (\<lambda>i. i \<noteq> 0) (i # is))"
      using False by (intro exI [of _ 1]) simp
    show ?thesis
    proof (cases r)
      case (Inl e)
      with False call have "snd (snd (one_nb_loop (traced f) o0 (i # is) out (s, calls))) = calls @ [i]"
        by (simp add: traced_apply)
      with stop show ?thesis by simp
    next
      case (Inr a)
      let ?src = "to_2d_one_nb a"
      show ?thesis
      proof (cases "setitem_columns out (i * shape1 ?src) ((i + 1) * shape1 ?src) ?src")
        case (Inl e)
        with False call Inr
        have "snd (snd (one_nb_loop (traced f) o0 (i # is) out (s, calls))) = calls @ [i]"
          by (simp add: traced_apply)
        with stop show ?thesis by simp
      next
        case out': (Inr out')
        from Cons.IH [of out' s1 "calls @ [i]"] obtain m where
          "snd (snd (one_nb_loop (traced f) o0 is out' (s1, calls @ [i])))
           = (calls @ [i]) @ take m (filter (\<lambda>i. i \<noteq> 0) is)" ..
        with False call Inr out'
        have "snd (snd (one_nb_loop (traced f) o0 (i # is) out (s, calls)))
              = calls @ take (Suc m) (filter (\<lambda>i. i \<noteq> 0) (i # is))"
          by (simp add: traced_apply)
        then show ?thesis ..
      qed
    qed
  qed
qed

lemma multiple_nb_loop_traced_prefix:
  "\<exists>m. snd (snd (multiple_nb_loop (traced f) o0 is out (s, calls)))
        = calls @ take m (filter (\<lambda>i. i \<noteq> 0) is)"
proof (induction "is" arbitrary: out s calls)
  case Nil
  then show ?case by simp
next
  case (Cons i "is")
  show ?case
  proof (cases "i = 0")
    case True
    show ?thesis
    proof (cases "multiple_nb_positions i o0 [0..<length o0] out")
      case (Inl e)
      with True have "snd (snd (multiple_nb_loop (traced f) o0 (i # is) out (s, calls)))
                      = calls @ take 0 (filter (\<lambda>i. i \<noteq> 0) (i # is))"
        by simp
      then show ?thesis ..
    next
      case (Inr out')
      from Cons.IH [of out' s calls] obtain m where
        "snd (snd (multiple_nb_loop (traced f) o0 is out' (s, calls)))
         = calls @ take m (filter (\<lambda>i. i \<noteq> 0) is)" ..
      with True Inr have "snd (snd (multiple_nb_loop (traced f) o0 (i # is) out (s, calls)))
                      = calls @ take m (filter (\<lambda>i. i \<noteq> 0) (i # is))"
        by simp
      then show ?thesis ..
    qed
  next
    case False
    obtain r s1 where call: "f i s = (r, s1)"
      by (cases "f i s")
    have stop: "\<exists>m. calls @ [i] = calls @ take m (filter (\<lambda>i. i \<noteq> 0) (i # is))"
      using False by (intro exI [of _ 1]) simp
    show ?thesis
    proof (cases r)
      case (Inl e)
      with False call have "snd (snd (multiple_nb_loop (traced f) o0 (i # is) out (s, calls))) = calls @ [i]"
        by (simp add: traced_apply)
      with stop show ?thesis by simp
    next
      case (Inr a)
      let ?src = "to_2d_multiple_nb a"
      show ?thesis
      proof (cases "multiple_nb_positions i ?src [0..<length ?src] out")
        case (Inl e)
        with False call Inr
        have "snd (snd (multiple_nb_loop (traced f) o0 (i # is) out (s, calls))) = calls @ [i]"
          by (simp add: traced_apply)
        with stop show ?thesis by simp
      next
        case out': (Inr out')
        from Cons.IH [of out' s1 "calls @ [i]"] obtain m where
          "snd (snd (multiple_nb_loop (traced f) o0 is out' (s1, calls @ [i])))
           = (calls @ [i]) @ take m (filter (\<lambda>i. i \<noteq> 0) is)" ..
        with False call Inr out'
        have "snd (snd (multiple_nb_loop (traced f) o0 (i # is) out (s, calls)))
              = calls @ take (Suc m) (filter (\<lambda>i. i \<noteq> 0) (i # is))"
          by (simp add: traced_apply)
        then show ?thesis ..
      qed
    qed
  qed
qed

lemma filter_nonzero_upt: "filter (\<lambda>i. i \<noteq> 0) [0..<n] = [Suc 0..<n]"
proof (cases n)
  case 0
  then show ?thesis by simp
next
  case (Suc m)
  have "filter (\<lambda>i. i \<noteq> 0) [Suc 0..<Suc m] = [Suc 0..<Suc m]"
    by (rule filter_True) auto
  then show ?thesis
    using Suc by (simp add: upt_conv_Cons [of 0])
qed

lemma filter_pos_upt: "filter ((<) 0) [0..<n] = [Suc 0..<n]"
  using filter_nonzero_upt [of n] by simp

lemma upt_max_1: "0 # [Suc 0..<n] = [0..<max n 1]"
  by (cases n) (simp_all add: upt_conv_Cons [of 0] max_def)

lemma apply_and_concat_one_nb_traced_prefix:
  "\<exists>m. snd (snd (apply_and_concat_one_nb junk n (traced f) (s, calls)))
        = calls @ 0 # take m [Suc 0..<n]"
proof -
  obtain r s0 where call: "f 0 s = (r, s0)"
    by (cases "f 0 s")
  show ?thesis
  proof (cases r)
    case (Inl e)
    with call have "snd (snd (apply_and_concat_one_nb junk n (traced f) (s, calls)))
                    = calls @ 0 # take 0 [Suc 0..<n]"
      by (simp add: apply_and_concat_one_nb_def traced_apply)
    then show ?thesis ..
  next
    case (Inr a)
    let ?o0 = "to_2d_one_nb a"
    let ?out = "np_empty junk (shape0 ?o0) (n * shape1 ?o0) (dtype ?o0)"
    from one_nb_loop_traced_prefix [of f ?o0 "[0..<n]" ?out s0 "calls @ [0]"] obtain m where
      "snd (snd (one_nb_loop (traced f) ?o0 [0..<n] ?out (s0, calls @ [0])))
       = (calls @ [0]) @ take m (filter (\<lambda>i. i \<noteq> 0) [0..<n])" ..
    with call Inr have "snd (snd (apply_and_concat_one_nb junk n (traced f) (s, calls)))
                    = calls @ 0 # take m [Suc 0..<n]"
      by (simp add: apply_and_concat_one_nb_def traced_apply Let_def filter_pos_upt)
    then show ?thesis ..
  qed
qed

lemma apply_and_concat_multiple_nb_traced_prefix:
  "\<exists>m. snd (snd (apply_and_concat_multiple_nb junk n (traced f) (s, calls)))
        = calls @ 0 # take m [Suc 0..<n]"
proof -
  obtain r s0 where call: "f 0 s = (r, s0)"
    by (cases "f 0 s")
  show ?thesis
  proof (cases r)
    case (Inl e)
    with call have "snd (snd (apply_and_concat_multiple_nb junk n (traced f) (s, calls)))
                    = calls @ 0 # take 0 [Suc 0..<n]"
      by (simp add: apply_and_concat_multiple_nb_def traced_apply)
    then show ?thesis ..
  next
    case (Inr t)
    let ?o0 = "to_2d_multiple_nb t"
    let ?outs = "map (\<lambda>a. np_empty junk (shape0 a) (n * shape1 a) (dtype a)) ?o0"
    from multiple_nb_loop_traced_prefix [of f ?o0 "[0..<n]" ?outs s0 "calls @ [0]"] obtain m where
      "snd (snd (multiple_nb_loop (traced f) ?o0 [0..<n] ?outs (s0, calls @ [0])))
       = (calls @ [0]) @ take m (filter (\<lambda>i. i \<noteq> 0) [0..<n])" ..
    with call Inr have "snd (snd (apply_and_concat_multiple_nb junk n (traced f) (s, calls)))
                    = calls @ 0 # take m [Suc 0..<n]"
      by (simp add: apply_and_concat_multiple_nb_def traced_apply Let_def filter_pos_upt)
    then show ?thesis ..
  qed
qed

section \<open>Combining one object with every candidate\<close>

lemma run_calls_select_and_combine:
  "\<forall>i\<in>set is. i < length others \<Longrightarrow>
   run_calls (\<lambda>i. select_and_combine i obj others g) is s
   = run_calls (\<lambda>i. g obj (others ! i)) is s"
  by (induction "is" arbitrary: s) (simp_all add: select_and_combine_def split: prod.splits sum.splits)

text \<open>
  C7. \<^verbatim>\<open>combine_and_concat\<close> is the sequential single-stack operation with
  \<open>n = len(others)\<close> and the apply function \<open>i \<mapsto> combine_func(obj, others[i])\<close>. For a
  non-empty \<open>others\<close>, when these calls return (in the order of \<open>others\<close>) arrays whose
  normalized forms share the row count \<open>R\<close>, the result has \<open>R\<close> rows and its columns are
  the columns of the normalized \<open>combine_func(obj, others[0])\<close>, then of
  \<open>combine_func(obj, others[1])\<close>, and so on: for every \<open>i\<close> below \<open>len(others)\<close> the block
  of candidate \<open>i\<close> starts after the blocks of the earlier candidates and holds the
  normalized \<open>combine_func(obj, others[i])\<close>, cast to the common dtype.
\<close>

theorem combine_and_concat_columns:
  assumes "others \<noteq> []"
    and "run_calls (\<lambda>i. combine_func obj (others ! i)) [0..<length others] s = (Inr rs, s')"
    and "\<forall>r\<in>set rs. shape0 (to_2d r) = R"
  shows "combine_and_concat obj others combine_func s
           = apply_and_concat_one (length others) (\<lambda>i. select_and_combine i obj others combine_func) s
       \<and> (\<forall>i<length others. select_and_combine i obj others combine_func
                               = combine_func obj (others ! i))
       \<and> (\<exists>out. combine_and_concat obj others combine_func s = (Inr out, s')
            \<and> nrows out = R
            \<and> dtype out = result_type (map (\<lambda>r. dtype (to_2d r)) rs)
            \<and> columns out = concat (map (\<lambda>r. cast_columns (dtype (to_2d r)) (dtype out)
                                               (columns (to_2d r))) rs)
            \<and> (\<forall>i<length others.
                   take (shape1 (to_2d (rs ! i)))
                     (drop (sum_list (map (\<lambda>r. shape1 (to_2d r)) (take i rs))) (columns out))
                   = cast_columns (dtype (to_2d (rs ! i))) (dtype out) (columns (to_2d (rs ! i)))))"
proof -
  have pos: "0 < length others"
    using assms(1) by simp
  have run: "run_calls (\<lambda>i. select_and_combine i obj others combine_func) [0..<length others] s
             = (Inr rs, s')"
    using assms(2) by (simp add: run_calls_select_and_combine)
  have sel: "\<forall>i<length others. select_and_combine i obj others combine_func
                               = combine_func obj (others ! i)"
    by (auto simp: select_and_combine_def fun_eq_iff)
  show ?thesis
    using apply_and_concat_one_blocks [OF pos run assms(3)] sel
    by (simp add: combine_and_concat_def)
qed

theorem combine_and_concat_columns_witness:
  "combine_and_concat [1, 2] [10, 20, 30] (pure_combine add_scalar) ()
   = (Inr \<lparr>dtype = NpInt64, nrows = 2, columns = [[11, 12], [21, 22], [31, 32]]\<rparr>, ())"
proof -
  let ?rs = "[add_scalar [1, 2] 10, add_scalar [1, 2] 20, add_scalar [1, 2] 30]"
  have ne: "[10, 20, 30 :: int] \<noteq> []"
    by simp
  have run: "run_calls (\<lambda>i. pure_combine add_scalar [1, 2] ([10, 20, 30] ! i))
               [0..<length [10, 20, 30 :: int]] () = (Inr ?rs, ())"
    by (simp add: upt_0_3 pure_combine_def)
  have rows: "\<forall>r\<in>set ?rs. shape0 (to_2d r) = 2"
    by (simp add: add_scalar_def shape0_def)
  from combine_and_concat_columns
    [where others = "[10, 20, 30]" and obj = "[1, 2]" and combine_func = "pure_combine add_scalar",
      OF ne run rows]
  obtain out where
    res: "combine_and_concat [1, 2] [10, 20, 30] (pure_combine add_scalar) () = (Inr out, ())"
    and r: "nrows out = 2"
    and d: "dtype out = result_type (map (\<lambda>r. dtype (to_2d r)) ?rs)"
    and c: "columns out = concat (map (\<lambda>r. cast_columns (dtype (to_2d r)) (dtype out)
                                              (columns (to_2d r))) ?rs)"
    by blast
  have d': "dtype out = NpInt64"
    using d by (simp add: add_scalar_def)
  have c': "columns out = [[11, 12], [21, 22], [31, 32]]"
    using c by (simp add: d' add_scalar_def)
  have "out = \<lparr>dtype = NpInt64, nrows = 2, columns = [[11, 12], [21, 22], [31, 32]]\<rparr>"
    using r d' c' by simp
  with res show ?thesis
    by simp
qed

section \<open>The sequential multi-stack executor\<close>







section \<open>The compiled multi-stack loop\<close>

lemma setitem_columns_with_block:
  assumes "shape0 src = shape0 out" "(i + 1) * shape1 src \<le> shape1 out"
  shows "setitem_columns out (i * shape1 src) ((i + 1) * shape1 src) src = Inr (with_block i out src)"
  using setitem_columns_block [OF assms(1) refl assms(2)] by (simp add: with_block_def)

lemma with_block_shape:
  assumes "(i + 1) * shape1 src \<le> shape1 out"
  shows "shape0 (with_block i out src) = shape0 out"
    and "shape1 (with_block i out src) = shape1 out"
    and "dtype (with_block i out src) = dtype out"
proof -
  have "i * shape1 src \<le> length (columns out)"
    using assms by (simp add: shape1_def)
  then show "shape1 (with_block i out src) = shape1 out"
    using assms by (simp add: with_block_def shape1_def)
qed (simp_all add: with_block_def shape0_def)

lemma with_block_extend:
  assumes fits: "(i + 1) * shape1 src \<le> shape1 out" and im: "i + 1 \<le> m"
  shows "take ((i + 1) * shape1 src) (columns (with_block i out src)) @ X
           @ drop (m * shape1 src) (columns (with_block i out src))
         = take (i * shape1 src) (columns out)
           @ (cast_columns (dtype src) (dtype out) (columns src) @ X)
           @ drop (m * shape1 src) (columns out)"
proof -
  let ?C = "shape1 src"
  have kc: "i * ?C \<le> length (columns out)"
    using fits by (simp add: shape1_def)
  have tk: "take ((i + 1) * ?C) (columns (with_block i out src))
            = take (i * ?C) (columns out) @ cast_columns (dtype src) (dtype out) (columns src)"
    using kc by (simp add: with_block_def shape1_def)
  have mc: "(i + 1) * ?C \<le> m * ?C"
    using im by (rule mult_le_mono1)
  have dr: "drop (m * ?C) (columns (with_block i out src)) = drop (m * ?C) (columns out)"
  proof -
    have "m * ?C = (i * ?C + ?C) + (m * ?C - (i + 1) * ?C)"
      using mc by simp
    then obtain e where e: "m * ?C = (i * ?C + ?C) + e" ..
    show ?thesis
      using kc by (simp add: with_block_def e [unfolded shape1_def] shape1_def add.commute)
  qed
  show ?thesis
    unfolding tk dr by simp
qed

lemma multiple_nb_positions_blocks:
  assumes "length outputs = k" and "length src = k" and "j0 \<le> k"
    and "\<forall>j<k. shape0 (src ! j) = shape0 (outputs ! j)
               \<and> (i + 1) * shape1 (src ! j) \<le> shape1 (outputs ! j)"
  shows "multiple_nb_positions i src [j0..<k] outputs
         = Inr (map (\<lambda>j. if j0 \<le> j then with_block i (outputs ! j) (src ! j) else outputs ! j) [0..<k])"
  using assms
proof (induction "k - j0" arbitrary: j0 outputs)
  case 0
  then have j0: "j0 = k" by simp
  have "map (\<lambda>j. if k \<le> j then with_block i (outputs ! j) (src ! j) else outputs ! j) [0..<k]
        = map (\<lambda>j. outputs ! j) [0..<k]"
    by (rule map_cong) simp_all
  also have "\<dots> = outputs"
    using "0.prems"(1) map_nth [of outputs] by simp
  finally show ?case
    by (simp add: j0)
next
  case (Suc d)
  then have lt: "j0 < k" by simp
  then have u: "[j0..<k] = j0 # [Suc j0..<k]"
    by (simp add: upt_conv_Cons)
  let ?b = "with_block i (outputs ! j0) (src ! j0)"
  let ?outputs' = "outputs[j0 := ?b]"
  have ok: "shape0 (src ! j0) = shape0 (outputs ! j0)"
    "(i + 1) * shape1 (src ! j0) \<le> shape1 (outputs ! j0)"
    using Suc.prems(4) lt by simp_all
  have set: "setitem_columns (outputs ! j0) (i * shape1 (src ! j0)) ((i + 1) * shape1 (src ! j0)) (src ! j0)
             = Inr ?b"
    using ok by (rule setitem_columns_with_block)
  have ih: "multiple_nb_positions i src [Suc j0..<k] ?outputs'
         = Inr (map (\<lambda>j. if Suc j0 \<le> j then with_block i (?outputs' ! j) (src ! j) else ?outputs' ! j) [0..<k])"
  proof (rule Suc.hyps(1))
    show "d = k - Suc j0" using Suc.hyps(2) by simp
    show "length ?outputs' = k" using Suc.prems(1) by simp
    show "length src = k" by (rule Suc.prems(2))
    show "Suc j0 \<le> k" using lt by simp
    show "\<forall>j<k. shape0 (src ! j) = shape0 (?outputs' ! j)
               \<and> (i + 1) * shape1 (src ! j) \<le> shape1 (?outputs' ! j)"
    proof (intro allI impI)
      fix j assume j: "j < k"
      show "shape0 (src ! j) = shape0 (?outputs' ! j)
               \<and> (i + 1) * shape1 (src ! j) \<le> shape1 (?outputs' ! j)"
      proof (cases "j = j0")
        case True
        then show ?thesis
          using ok with_block_shape(1,2) [OF ok(2)] lt Suc.prems(1) by simp
      next
        case False
        then show ?thesis
          using Suc.prems(4) j by simp
      qed
    qed
  qed
  have same: "map (\<lambda>j. if Suc j0 \<le> j then with_block i (?outputs' ! j) (src ! j) else ?outputs' ! j) [0..<k]
        = map (\<lambda>j. if j0 \<le> j then with_block i (outputs ! j) (src ! j) else outputs ! j) [0..<k]"
  proof (rule map_cong [OF refl])
    fix j assume "j \<in> set [0..<k]"
    then have j: "j < length outputs" using Suc.prems(1) by simp
    show "(if Suc j0 \<le> j then with_block i (?outputs' ! j) (src ! j) else ?outputs' ! j)
          = (if j0 \<le> j then with_block i (outputs ! j) (src ! j) else outputs ! j)"
    proof (cases "j = j0")
      case True
      then show ?thesis using j by simp
    next
      case False
      then show ?thesis by auto
    qed
  qed
  have "multiple_nb_positions i src [j0..<k] outputs = multiple_nb_positions i src [Suc j0..<k] ?outputs'"
    using lt Suc.prems(1) set by (simp add: u)
  then show ?case
    by (simp only: ih same)
qed

lemma with_block_columns_update:
  "(with_block i out src)\<lparr>columns := Z\<rparr> = out\<lparr>columns := Z\<rparr>"
  by (simp add: with_block_def)

lemma multiple_nb_loop_blocks:
  assumes "run_calls f [k0..<m] s = (Inr ts, s')"
    and "0 < k0" and "k0 \<le> m" and "m \<le> n"
    and "length outs = k"
    and "\<forall>t\<in>set ts. length t = k
           \<and> (\<forall>j<k. shape0 (to_2d_one_nb (t ! j)) = shape0 (outs ! j)
                    \<and> shape1 (to_2d_one_nb (t ! j)) = C j)"
    and "\<forall>j<k. shape1 (outs ! j) = n * C j"
  shows "multiple_nb_loop f o0 [k0..<m] outs s
         = (Inr (map (\<lambda>j. (outs ! j)\<lparr>columns := take (k0 * C j) (columns (outs ! j))
                   @ concat (map (\<lambda>t. cast_columns (dtype (to_2d_one_nb (t ! j))) (dtype (outs ! j))
                                       (columns (to_2d_one_nb (t ! j)))) ts)
                   @ drop (m * C j) (columns (outs ! j))\<rparr>) [0..<k]), s')"
  using assms
proof (induction "m - k0" arbitrary: k0 outs s ts)
  case 0
  then have "k0 = m" by simp
  with "0.prems"(1) have ts: "ts = []" and s': "s' = s"
    by simp_all
  have "map (\<lambda>j. (outs ! j)\<lparr>columns := take (m * C j) (columns (outs ! j))
                   @ concat (map (\<lambda>t. cast_columns (dtype (to_2d_one_nb (t ! j))) (dtype (outs ! j))
                                       (columns (to_2d_one_nb (t ! j)))) [])
                   @ drop (m * C j) (columns (outs ! j))\<rparr>) [0..<k]
        = map (\<lambda>j. outs ! j) [0..<k]"
    by (rule map_cong) simp_all
  also have "\<dots> = outs"
    using "0.prems"(5) map_nth [of outs] by simp
  finally show ?case
    using \<open>k0 = m\<close> by (simp add: ts s')
next
  case (Suc d)
  then have lt: "k0 < m" by simp
  then have u: "[k0..<m] = k0 # [Suc k0..<m]"
    by (simp add: upt_conv_Cons)
  from Suc.prems(1) obtain t s1 ts' where
    call: "f k0 s = (Inr t, s1)" and rest: "run_calls f [Suc k0..<m] s1 = (Inr ts', s')"
    and ts: "ts = t # ts'"
    unfolding u by (rule run_calls_Cons_Inr)
  let ?src = "to_2d_multiple_nb t"
  have lt_t: "length t = k"
    using Suc.prems(6) ts by simp
  have len_src: "length ?src = k"
    using lt_t by (simp add: to_2d_multiple_nb_def)
  have src_nth: "?src ! j = to_2d_one_nb (t ! j)" if "j < k" for j
    using that lt_t by (simp add: to_2d_multiple_nb_def)
  have src_shape: "shape0 (?src ! j) = shape0 (outs ! j)" "shape1 (?src ! j) = C j" if "j < k" for j
    using Suc.prems(6) ts that by (simp_all add: src_nth)
  have "k0 + 1 \<le> n"
    using lt Suc.prems(4) by simp
  then have kn: "(k0 + 1) * c \<le> n * c" for c
    by (rule mult_le_mono1)
  have fits: "(k0 + 1) * shape1 (?src ! j) \<le> shape1 (outs ! j)" if "j < k" for j
    using kn [of "C j"] Suc.prems(7) that by (simp add: src_shape)
  let ?outs1 = "map (\<lambda>j. with_block k0 (outs ! j) (?src ! j)) [0..<k]"
  have pos: "multiple_nb_positions k0 ?src [0..<length ?src] outs = Inr ?outs1"
  proof -
    have "multiple_nb_positions k0 ?src [0..<k] outs
          = Inr (map (\<lambda>j. if 0 \<le> j then with_block k0 (outs ! j) (?src ! j) else outs ! j) [0..<k])"
      using Suc.prems(5) len_src src_shape(1) fits
      by (intro multiple_nb_positions_blocks) simp_all
    then show ?thesis
      by (simp add: len_src)
  qed
  have outs1_nth: "?outs1 ! j = with_block k0 (outs ! j) (?src ! j)" if "j < k" for j
    using that by simp
  have ih: "multiple_nb_loop f o0 [Suc k0..<m] ?outs1 s1
         = (Inr (map (\<lambda>j. (?outs1 ! j)\<lparr>columns := take (Suc k0 * C j) (columns (?outs1 ! j))
                   @ concat (map (\<lambda>t. cast_columns (dtype (to_2d_one_nb (t ! j))) (dtype (?outs1 ! j))
                                       (columns (to_2d_one_nb (t ! j)))) ts')
                   @ drop (m * C j) (columns (?outs1 ! j))\<rparr>) [0..<k]), s')"
  proof (rule Suc.hyps(1))
    show "d = m - Suc k0" using Suc.hyps(2) by simp
    show "run_calls f [Suc k0..<m] s1 = (Inr ts', s')" by (rule rest)
    show "0 < Suc k0" by simp
    show "Suc k0 \<le> m" using lt by simp
    show "m \<le> n" by (rule Suc.prems(4))
    show "length ?outs1 = k" by simp
    show "\<forall>t\<in>set ts'. length t = k
           \<and> (\<forall>j<k. shape0 (to_2d_one_nb (t ! j)) = shape0 (?outs1 ! j)
                    \<and> shape1 (to_2d_one_nb (t ! j)) = C j)"
      using Suc.prems(6) ts with_block_shape(1) [OF fits]
      by (simp add: outs1_nth)
    show "\<forall>j<k. shape1 (?outs1 ! j) = n * C j"
      using Suc.prems(7) with_block_shape(2) [OF fits]
      by (simp add: outs1_nth)
  qed
  have same: "map (\<lambda>j. (?outs1 ! j)\<lparr>columns := take (Suc k0 * C j) (columns (?outs1 ! j))
                   @ concat (map (\<lambda>t. cast_columns (dtype (to_2d_one_nb (t ! j))) (dtype (?outs1 ! j))
                                       (columns (to_2d_one_nb (t ! j)))) ts')
                   @ drop (m * C j) (columns (?outs1 ! j))\<rparr>) [0..<k]
        = map (\<lambda>j. (outs ! j)\<lparr>columns := take (k0 * C j) (columns (outs ! j))
                   @ concat (map (\<lambda>t. cast_columns (dtype (to_2d_one_nb (t ! j))) (dtype (outs ! j))
                                       (columns (to_2d_one_nb (t ! j)))) ts)
                   @ drop (m * C j) (columns (outs ! j))\<rparr>) [0..<k]"
  proof (rule map_cong [OF refl])
    fix j assume "j \<in> set [0..<k]"
    then have j: "j < k" by simp
    let ?X = "concat (map (\<lambda>t. cast_columns (dtype (to_2d_one_nb (t ! j))) (dtype (outs ! j))
                                       (columns (to_2d_one_nb (t ! j)))) ts')"
    have im: "k0 + 1 \<le> m" using lt by simp
    have ext: "take ((k0 + 1) * C j) (columns (with_block k0 (outs ! j) (?src ! j))) @ ?X
           @ drop (m * C j) (columns (with_block k0 (outs ! j) (?src ! j)))
         = take (k0 * C j) (columns (outs ! j))
           @ (cast_columns (dtype (?src ! j)) (dtype (outs ! j)) (columns (?src ! j)) @ ?X)
           @ drop (m * C j) (columns (outs ! j))"
      using with_block_extend [OF fits [OF j] im, of ?X] by (simp add: src_shape(2) [OF j])
    have dt: "dtype (with_block k0 (outs ! j) (?src ! j)) = dtype (outs ! j)"
      using with_block_shape(3) [OF fits [OF j]] .
    show "(?outs1 ! j)\<lparr>columns := take (Suc k0 * C j) (columns (?outs1 ! j))
                   @ concat (map (\<lambda>t. cast_columns (dtype (to_2d_one_nb (t ! j))) (dtype (?outs1 ! j))
                                       (columns (to_2d_one_nb (t ! j)))) ts')
                   @ drop (m * C j) (columns (?outs1 ! j))\<rparr>
        = (outs ! j)\<lparr>columns := take (k0 * C j) (columns (outs ! j))
                   @ concat (map (\<lambda>t. cast_columns (dtype (to_2d_one_nb (t ! j))) (dtype (outs ! j))
                                       (columns (to_2d_one_nb (t ! j)))) ts)
                   @ drop (m * C j) (columns (outs ! j))\<rparr>"
      unfolding outs1_nth [OF j] dt with_block_columns_update
      using ext by (simp add: ts src_nth [OF j])
  qed
  have step: "multiple_nb_loop f o0 [k0..<m] outs s = multiple_nb_loop f o0 [Suc k0..<m] ?outs1 s1"
    using Suc.prems(2) call pos by (simp add: u)
  show ?case
    unfolding step ih same ..
qed

lemma apply_and_concat_multiple_nb_blocks:
  assumes n: "0 < n"
    and run: "run_calls f [0..<n] s = (Inr ts, s')"
    and shapes: "\<forall>t\<in>set ts. length t = k
           \<and> (\<forall>j<k. shape0 (to_2d_one_nb (t ! j)) = R j \<and> shape1 (to_2d_one_nb (t ! j)) = C j)"
  shows "apply_and_concat_multiple_nb junk n f s
         = (Inr (map (\<lambda>j. \<lparr>dtype = dtype (to_2d_one_nb (hd ts ! j)), nrows = R j,
                   columns = concat (map (\<lambda>t. cast_columns (dtype (to_2d_one_nb (t ! j)))
                                 (dtype (to_2d_one_nb (hd ts ! j))) (columns (to_2d_one_nb (t ! j)))) ts)\<rparr>)
                  [0..<k]), s')"
proof -
  have u: "[0..<n] = 0 # [Suc 0..<n]"
    using n by (simp add: upt_conv_Cons)
  from run obtain t0 s0 ts' where
    call: "f 0 s = (Inr t0, s0)" and rest: "run_calls f [Suc 0..<n] s0 = (Inr ts', s')"
    and ts: "ts = t0 # ts'"
    unfolding u by (rule run_calls_Cons_Inr)
  let ?o0 = "to_2d_multiple_nb t0"
  let ?outs = "map (\<lambda>a. np_empty junk (shape0 a) (n * shape1 a) (dtype a)) ?o0"
  have lt0: "length t0 = k"
    using shapes ts by simp
  have len_o0: "length ?o0 = k"
    using lt0 by (simp add: to_2d_multiple_nb_def)
  have o0_nth: "?o0 ! j = to_2d_one_nb (t0 ! j)" if "j < k" for j
    using that lt0 by (simp add: to_2d_multiple_nb_def)
  have o0_shape: "shape0 (?o0 ! j) = R j" "shape1 (?o0 ! j) = C j" if "j < k" for j
    using shapes ts that by (simp_all add: o0_nth)
  have outs_nth: "?outs ! j = np_empty junk (R j) (n * C j) (dtype (?o0 ! j))" if "j < k" for j
    using that len_o0 o0_shape [OF that] by simp
  have outs_shape: "shape0 (?outs ! j) = R j" "shape1 (?outs ! j) = n * C j"
      "dtype (?outs ! j) = dtype (?o0 ! j)" if "j < k" for j
    unfolding outs_nth [OF that] by (simp_all add: np_empty_def shape0_def shape1_def)
  have "0 + 1 \<le> n"
    using n by simp
  then have kn: "(0 + 1) * c \<le> n * c" for c
    by (rule mult_le_mono1)
  have fits: "(0 + 1) * shape1 (?o0 ! j) \<le> shape1 (?outs ! j)" if "j < k" for j
    using kn [of "C j"] by (simp add: o0_shape [OF that] outs_shape [OF that])
  let ?outs1 = "map (\<lambda>j. with_block 0 (?outs ! j) (?o0 ! j)) [0..<k]"
  have pos: "multiple_nb_positions 0 ?o0 [0..<length ?o0] ?outs = Inr ?outs1"
  proof -
    have "multiple_nb_positions 0 ?o0 [0..<k] ?outs
          = Inr (map (\<lambda>j. if 0 \<le> j then with_block 0 (?outs ! j) (?o0 ! j) else ?outs ! j) [0..<k])"
    proof (rule multiple_nb_positions_blocks)
      show "length ?outs = k" using len_o0 by simp
      show "length ?o0 = k" by (rule len_o0)
      show "0 \<le> k" by simp
      show "\<forall>j<k. shape0 (?o0 ! j) = shape0 (?outs ! j)
                 \<and> (0 + 1) * shape1 (?o0 ! j) \<le> shape1 (?outs ! j)"
        using fits o0_shape(1) outs_shape(1) by simp
    qed
    then show ?thesis
      by (simp add: len_o0)
  qed
  have outs1_nth: "?outs1 ! j = with_block 0 (?outs ! j) (?o0 ! j)" if "j < k" for j
    using that by simp
  have loop: "multiple_nb_loop f ?o0 [Suc 0..<n] ?outs1 s0
         = (Inr (map (\<lambda>j. (?outs1 ! j)\<lparr>columns := take (Suc 0 * C j) (columns (?outs1 ! j))
                   @ concat (map (\<lambda>t. cast_columns (dtype (to_2d_one_nb (t ! j))) (dtype (?outs1 ! j))
                                       (columns (to_2d_one_nb (t ! j)))) ts')
                   @ drop (n * C j) (columns (?outs1 ! j))\<rparr>) [0..<k]), s')"
  proof (rule multiple_nb_loop_blocks [OF rest])
    show "0 < Suc 0" by simp
    show "Suc 0 \<le> n" using n by simp
    show "n \<le> n" by simp
    show "length ?outs1 = k" by simp
    show "\<forall>t\<in>set ts'. length t = k
           \<and> (\<forall>j<k. shape0 (to_2d_one_nb (t ! j)) = shape0 (?outs1 ! j)
                    \<and> shape1 (to_2d_one_nb (t ! j)) = C j)"
      using shapes ts with_block_shape(1) [OF fits] outs_shape(1)
      by (simp add: outs1_nth)
    show "\<forall>j<k. shape1 (?outs1 ! j) = n * C j"
      using with_block_shape(2) [OF fits] outs_shape(2)
      by (simp add: outs1_nth)
  qed
  have same: "map (\<lambda>j. (?outs1 ! j)\<lparr>columns := take (Suc 0 * C j) (columns (?outs1 ! j))
                   @ concat (map (\<lambda>t. cast_columns (dtype (to_2d_one_nb (t ! j))) (dtype (?outs1 ! j))
                                       (columns (to_2d_one_nb (t ! j)))) ts')
                   @ drop (n * C j) (columns (?outs1 ! j))\<rparr>) [0..<k]
        = map (\<lambda>j. \<lparr>dtype = dtype (to_2d_one_nb (hd ts ! j)), nrows = R j,
                   columns = concat (map (\<lambda>t. cast_columns (dtype (to_2d_one_nb (t ! j)))
                                 (dtype (to_2d_one_nb (hd ts ! j))) (columns (to_2d_one_nb (t ! j)))) ts)\<rparr>)
                  [0..<k]"
  proof (rule map_cong [OF refl])
    fix j assume "j \<in> set [0..<k]"
    then have j: "j < k" by simp
    let ?D = "dtype (to_2d_one_nb (t0 ! j))"
    let ?X = "concat (map (\<lambda>t. cast_columns (dtype (to_2d_one_nb (t ! j))) ?D
                                       (columns (to_2d_one_nb (t ! j)))) ts')"
    have dt: "dtype (with_block 0 (?outs ! j) (?o0 ! j)) = ?D"
      using with_block_shape(3) [OF fits [OF j]] outs_shape(3) [OF j] by (simp add: o0_nth [OF j])
    have cols_len: "length (columns (?outs ! j)) = n * C j"
      using outs_shape(2) [OF j] by (simp add: shape1_def)
    have ext: "take ((0 + 1) * C j) (columns (with_block 0 (?outs ! j) (?o0 ! j))) @ ?X
           @ drop (n * C j) (columns (with_block 0 (?outs ! j) (?o0 ! j)))
         = take (0 * C j) (columns (?outs ! j))
           @ (cast_columns (dtype (?o0 ! j)) (dtype (?outs ! j)) (columns (?o0 ! j)) @ ?X)
           @ drop (n * C j) (columns (?outs ! j))"
      using with_block_extend [OF fits [OF j] \<open>0 + 1 \<le> n\<close>, of ?X] by (simp add: o0_shape(2) [OF j])
    have ext': "take (Suc 0 * C j) (columns (with_block 0 (?outs ! j) (?o0 ! j))) @ ?X
           @ drop (n * C j) (columns (with_block 0 (?outs ! j) (?o0 ! j)))
         = columns (to_2d_one_nb (t0 ! j)) @ ?X"
      using ext cols_len by (simp add: outs_shape(3) [OF j] o0_nth [OF j])
    have rec: "(?outs ! j)\<lparr>columns := Z\<rparr> = \<lparr>dtype = ?D, nrows = R j, columns = Z\<rparr>" for Z
      unfolding outs_nth [OF j] by (simp add: np_empty_def o0_nth [OF j])
    show "(?outs1 ! j)\<lparr>columns := take (Suc 0 * C j) (columns (?outs1 ! j))
                   @ concat (map (\<lambda>t. cast_columns (dtype (to_2d_one_nb (t ! j))) (dtype (?outs1 ! j))
                                       (columns (to_2d_one_nb (t ! j)))) ts')
                   @ drop (n * C j) (columns (?outs1 ! j))\<rparr>
        = \<lparr>dtype = dtype (to_2d_one_nb (hd ts ! j)), nrows = R j,
                   columns = concat (map (\<lambda>t. cast_columns (dtype (to_2d_one_nb (t ! j)))
                                 (dtype (to_2d_one_nb (hd ts ! j))) (columns (to_2d_one_nb (t ! j)))) ts)\<rparr>"
      unfolding outs1_nth [OF j] dt with_block_columns_update ext' rec
      by (simp add: ts)
  qed
  have "apply_and_concat_multiple_nb junk n f s = multiple_nb_loop f ?o0 [Suc 0..<n] ?outs1 s0"
    using call pos by (simp add: apply_and_concat_multiple_nb_def u Let_def)
  then show ?thesis
    unfolding loop same .
qed




section \<open>The number of calls of the compiled executors\<close>

lemma run_calls_traced:
  "run_calls f is s = (Inr rs, s') \<Longrightarrow>
   run_calls (traced f) is (s, calls) = (Inr rs, (s', calls @ is))"
proof (induction "is" arbitrary: s calls rs)
  case Nil
  then show ?case by simp
next
  case (Cons i "is")
  from Cons.prems obtain r s1 rs' where
    step: "f i s = (Inr r, s1)" and rest: "run_calls f is s1 = (Inr rs', s')" and rs: "rs = r # rs'"
    by (rule run_calls_Cons_Inr)
  from Cons.IH [OF rest, of "calls @ [i]"] step rs show ?case
    by (simp add: traced_apply)
qed

lemma apply_and_concat_one_nb_traced_returns:
  assumes run: "run_calls f [0..<max n 1] s = (Inr rs, s1)"
    and shapes: "\<forall>r\<in>set rs. shape0 (to_2d_one_nb r) = R \<and> shape1 (to_2d_one_nb r) = C"
  shows "\<exists>out. apply_and_concat_one_nb junk n (traced f) (s, calls)
               = (Inr out, (s1, calls @ [0..<max n 1]))"
proof (cases "n = 0")
  case True
  with run obtain a where "f 0 s = (Inr a, s1)"
    by (auto split: prod.splits sum.splits)
  then show ?thesis
    using True by (simp add: apply_and_concat_one_nb_def traced_apply Let_def)
next
  case False
  then have n: "0 < n" and m: "max n 1 = n"
    by simp_all
  have "run_calls (traced f) [0..<n] (s, calls) = (Inr rs, (s1, calls @ [0..<n]))"
    using run_calls_traced [OF run [unfolded m]] .
  from apply_and_concat_one_nb_blocks [OF this n shapes, of junk] show ?thesis
    unfolding m by blast
qed

lemma apply_and_concat_multiple_nb_traced_returns:
  assumes run: "run_calls g [0..<max n 1] s = (Inr ts, s2)"
    and shapes: "\<forall>t\<in>set ts. length t = k
           \<and> (\<forall>j<k. shape0 (to_2d_one_nb (t ! j)) = Rj j \<and> shape1 (to_2d_one_nb (t ! j)) = Cj j)"
  shows "\<exists>outs. apply_and_concat_multiple_nb junk n (traced g) (s, calls)
               = (Inr outs, (s2, calls @ [0..<max n 1]))"
proof (cases "n = 0")
  case True
  with run obtain t where "g 0 s = (Inr t, s2)"
    by (auto split: prod.splits sum.splits)
  then show ?thesis
    using True by (simp add: apply_and_concat_multiple_nb_def traced_apply Let_def)
next
  case False
  then have n: "0 < n" and m: "max n 1 = n"
    by simp_all
  have "run_calls (traced g) [0..<n] (s, calls) = (Inr ts, (s2, calls @ [0..<n]))"
    using run_calls_traced [OF run [unfolded m]] .
  from apply_and_concat_multiple_nb_blocks [OF n this shapes, of junk] show ?thesis
    unfolding m by blast
qed

text \<open>
  C10. A compiled executor calls the apply function exactly \<open>max n 1\<close> times. When the
  calls at the indices \<open>0, ..., max n 1 - 1\<close> return arrays of one row count and one
  column count (per position, for the multi-stack executor), the executor returns its
  buffers and the call log has grown by exactly \<open>0, 1, ..., max n 1 - 1\<close>: index 0 once,
  before the loop, then each of \<open>1, ..., n - 1\<close> once, in ascending order; for \<open>n = 0\<close>
  that is \<open>[0]\<close>, one call although no iteration was asked for. Conversely every run that
  returns its buffers has this log, and every run, also one that ends in an exception,
  has logged index 0 first and never again, followed by an initial part of
  \<open>1, ..., n - 1\<close>.
\<close>

theorem compiled_executors_call_max_n_1_times:
  "(run_calls f [0..<max n 1] s = (Inr rs, sa)
      \<and> (\<forall>r\<in>set rs. shape0 (to_2d_one_nb r) = R \<and> shape1 (to_2d_one_nb r) = C)
      \<longrightarrow> (\<exists>out. apply_and_concat_one_nb junk n (traced f) (s, calls)
                  = (Inr out, (sa, calls @ [0..<max n 1]))))
   \<and> (run_calls g [0..<max n 1] s = (Inr ts, sb)
      \<and> (\<forall>t\<in>set ts. length t = k
           \<and> (\<forall>j<k. shape0 (to_2d_one_nb (t ! j)) = Rj j \<and> shape1 (to_2d_one_nb (t ! j)) = Cj j))
      \<longrightarrow> (\<exists>outs. apply_and_concat_multiple_nb junk n (traced g) (s, calls)
                  = (Inr outs, (sb, calls @ [0..<max n 1]))))
   \<and> (\<exists>m. snd (snd (apply_and_concat_one_nb junk n (traced f) (s, calls)))
          = calls @ 0 # take m [Suc 0..<n])
   \<and> (apply_and_concat_one_nb junk n (traced f) (s, calls) = (Inr out, (s', calls'))
      \<longrightarrow> calls' = calls @ [0..<max n 1])
   \<and> (\<exists>m. snd (snd (apply_and_concat_multiple_nb junk n (traced g) (s, calls)))
          = calls @ 0 # take m [Suc 0..<n])
   \<and> (apply_and_concat_multiple_nb junk n (traced g) (s, calls) = (Inr outs, (s'', calls''))
      \<longrightarrow> calls'' = calls @ [0..<max n 1])"
proof (intro conjI impI)
  assume "run_calls f [0..<max n 1] s = (Inr rs, sa)
      \<and> (\<forall>r\<in>set rs. shape0 (to_2d_one_nb r) = R \<and> shape1 (to_2d_one_nb r) = C)"
  then have "run_calls f [0..<max n 1] s = (Inr rs, sa)"
    and "\<forall>r\<in>set rs. shape0 (to_2d_one_nb r) = R \<and> shape1 (to_2d_one_nb r) = C"
    by simp_all
  then show "\<exists>out. apply_and_concat_one_nb junk n (traced f) (s, calls)
                  = (Inr out, (sa, calls @ [0..<max n 1]))"
    by (rule apply_and_concat_one_nb_traced_returns)
next
  assume "run_calls g [0..<max n 1] s = (Inr ts, sb)
      \<and> (\<forall>t\<in>set ts. length t = k
           \<and> (\<forall>j<k. shape0 (to_2d_one_nb (t ! j)) = Rj j \<and> shape1 (to_2d_one_nb (t ! j)) = Cj j))"
  then have "run_calls g [0..<max n 1] s = (Inr ts, sb)"
    and "\<forall>t\<in>set ts. length t = k
           \<and> (\<forall>j<k. shape0 (to_2d_one_nb (t ! j)) = Rj j \<and> shape1 (to_2d_one_nb (t ! j)) = Cj j)"
    by simp_all
  then show "\<exists>outs. apply_and_concat_multiple_nb junk n (traced g) (s, calls)
                  = (Inr outs, (sb, calls @ [0..<max n 1]))"
    by (rule apply_and_concat_multiple_nb_traced_returns)
next
  show "\<exists>m. snd (snd (apply_and_concat_one_nb junk n (traced f) (s, calls)))
          = calls @ 0 # take m [Suc 0..<n]"
    by (rule apply_and_concat_one_nb_traced_prefix)
next
  show "\<exists>m. snd (snd (apply_and_concat_multiple_nb junk n (traced g) (s, calls)))
          = calls @ 0 # take m [Suc 0..<n]"
    by (rule apply_and_concat_multiple_nb_traced_prefix)
next
  assume run: "apply_and_concat_one_nb junk n (traced f) (s, calls) = (Inr out, (s', calls'))"
  then obtain a s0 where
    "one_nb_loop (traced f) (to_2d_one_nb a) [0..<n]
       (np_empty junk (shape0 (to_2d_one_nb a)) (n * shape1 (to_2d_one_nb a)) (dtype (to_2d_one_nb a)))
       (s0, calls @ [0]) = (Inr out, (s', calls'))"
    by (auto simp: apply_and_concat_one_nb_def traced_apply Let_def split: sum.splits prod.splits)
  from one_nb_loop_traced [OF this] show "calls' = calls @ [0..<max n 1]"
    using upt_max_1 [of n] by (simp add: filter_pos_upt)
next
  assume run: "apply_and_concat_multiple_nb junk n (traced g) (s, calls) = (Inr outs, (s'', calls''))"
  then obtain t s0 where
    "multiple_nb_loop (traced g) (to_2d_multiple_nb t) [0..<n]
       (map (\<lambda>a. np_empty junk (shape0 a) (n * shape1 a) (dtype a)) (to_2d_multiple_nb t))
       (s0, calls @ [0]) = (Inr outs, (s'', calls''))"
    by (auto simp: apply_and_concat_multiple_nb_def traced_apply Let_def split: sum.splits prod.splits)
  from multiple_nb_loop_traced [OF this] show "calls'' = calls @ [0..<max n 1]"
    using upt_max_1 [of n] by (simp add: filter_pos_upt)
qed

theorem compiled_executors_call_max_n_1_times_witness:
  "(\<exists>out. apply_and_concat_one_nb 99 3 (traced (pure_apply index_column)) ((), [])
            = (Inr out, ((), [0, 1, 2])))
   \<and> (\<exists>out. apply_and_concat_one_nb 99 0 (traced (pure_apply index_column)) ((), [])
            = (Inr out, ((), [0])))
   \<and> (\<exists>outs. apply_and_concat_multiple_nb 99 3 (traced (pure_apply pair_of_columns)) ((), [])
            = (Inr outs, ((), [0, 1, 2])))
   \<and> (\<exists>outs. apply_and_concat_multiple_nb 99 0 (traced (pure_apply pair_of_columns)) ((), [])
            = (Inr outs, ((), [0])))"
proof -
  have m3: "max 3 (1 :: nat) = 3" and m0: "max 0 (1 :: nat) = 1"
    by simp_all
  have u1: "[0..<1] = [0 :: nat]"
    by simp
  have lt2: "j < 2 \<longleftrightarrow> j = 0 \<or> j = 1" for j :: nat
    by auto
  have run3: "run_calls (pure_apply index_column) [0..<max 3 1] ()
              = (Inr [index_column 0, index_column 1, index_column 2], ())"
    by (simp add: upt_0_3 pure_apply_def)
  have sh3: "\<forall>r\<in>set [index_column 0, index_column 1, index_column 2].
               shape0 (to_2d_one_nb r) = 2 \<and> shape1 (to_2d_one_nb r) = 1"
    by (simp add: index_column_def expand_dims_axis1_def shape0_def shape1_def)
  have run0: "run_calls (pure_apply index_column) [0..<max 0 1] () = (Inr [index_column 0], ())"
    by (simp add: pure_apply_def)
  have sh0: "\<forall>r\<in>set [index_column 0]. shape0 (to_2d_one_nb r) = 2 \<and> shape1 (to_2d_one_nb r) = 1"
    by (simp add: index_column_def expand_dims_axis1_def shape0_def shape1_def)
  have mrun3: "run_calls (pure_apply pair_of_columns) [0..<max 3 1] ()
              = (Inr [pair_of_columns 0, pair_of_columns 1, pair_of_columns 2], ())"
    by (simp add: upt_0_3 pure_apply_def)
  have msh3: "\<forall>t\<in>set [pair_of_columns 0, pair_of_columns 1, pair_of_columns 2]. length t = 2
           \<and> (\<forall>j<2. shape0 (to_2d_one_nb (t ! j)) = (\<lambda>_. 2) j \<and> shape1 (to_2d_one_nb (t ! j)) = (\<lambda>_. 1) j)"
    by (simp add: pair_of_columns_def expand_dims_axis1_def shape0_def shape1_def lt2)
  have mrun0: "run_calls (pure_apply pair_of_columns) [0..<max 0 1] ()
              = (Inr [pair_of_columns 0], ())"
    by (simp add: pure_apply_def)
  have msh0: "\<forall>t\<in>set [pair_of_columns 0]. length t = 2
           \<and> (\<forall>j<2. shape0 (to_2d_one_nb (t ! j)) = (\<lambda>_. 2) j \<and> shape1 (to_2d_one_nb (t ! j)) = (\<lambda>_. 1) j)"
    by (simp add: pair_of_columns_def expand_dims_axis1_def shape0_def shape1_def lt2)
  note three = compiled_executors_call_max_n_1_times
    [where f = "pure_apply index_column" and g = "pure_apply pair_of_columns" and n = 3
      and s = "()" and calls = "[]" and junk = 99 and sa = "()" and sb = "()" and k = 2
      and rs = "[index_column 0, index_column 1, index_column 2]" and R = 2 and C = 1
      and ts = "[pair_of_columns 0, pair_of_columns 1, pair_of_columns 2]"
      and Rj = "\<lambda>_. 2" and Cj = "\<lambda>_. 1"]
  note zero = compiled_executors_call_max_n_1_times
    [where f = "pure_apply index_column" and g = "pure_apply pair_of_columns" and n = 0
      and s = "()" and calls = "[]" and junk = 99 and sa = "()" and sb = "()" and k = 2
      and rs = "[index_column 0]" and R = 2 and C = 1
      and ts = "[pair_of_columns 0]" and Rj = "\<lambda>_. 2" and Cj = "\<lambda>_. 1"]
  have a: "\<exists>out. apply_and_concat_one_nb 99 3 (traced (pure_apply index_column)) ((), [])
            = (Inr out, ((), [] @ [0..<max 3 1]))"
    using three run3 sh3 by blast
  have b: "\<exists>out. apply_and_concat_one_nb 99 0 (traced (pure_apply index_column)) ((), [])
            = (Inr out, ((), [] @ [0..<max 0 1]))"
    using zero run0 sh0 by blast
  have c: "\<exists>outs. apply_and_concat_multiple_nb 99 3 (traced (pure_apply pair_of_columns)) ((), [])
            = (Inr outs, ((), [] @ [0..<max 3 1]))"
    using three mrun3 msh3 by blast
  have d: "\<exists>outs. apply_and_concat_multiple_nb 99 0 (traced (pure_apply pair_of_columns)) ((), [])
            = (Inr outs, ((), [] @ [0..<max 0 1]))"
    using zero mrun0 msh0 by blast
  from a b c d show ?thesis
    by (simp add: upt_0_3)
qed

section \<open>No iteration\<close>

text \<open>
  C2 as stated fails: with \<open>n = 0\<close> the sequential multi-stack operation returns the empty
  list, and the compiled single-stack operation returns a buffer of two rows and no
  column; neither raises.
\<close>

theorem n_zero_returns_counterexample:
  "apply_and_concat_multiple 0 (pure_apply pair_of_columns) () = (Inr [], ())
   \<and> apply_and_concat_one_nb 99 0 (pure_apply index_column) ()
       = (Inr \<lparr>dtype = NpInt64, nrows = 2, columns = []\<rparr>, ())"
  by (simp add: apply_and_concat_multiple_def zip_star_def apply_and_concat_one_nb_def
      pure_apply_def index_column_def expand_dims_axis1_def np_empty_def shape0_def shape1_def)

text \<open>
  C2, amended. With \<open>n = 0\<close>: both discard operations return nothing without calling the
  apply function; \<^verbatim>\<open>apply_and_concat_one\<close> raises \<^verbatim>\<open>ValueError\<close> without calling it;
  \<^verbatim>\<open>apply_and_concat_multiple\<close> returns the empty list without calling it; and the two
  compiled stacking operations call it once, at index 0, and when that call returns they
  return buffers with the row count and dtype of its result and no column (when it
  raises, the exception is the outcome).
\<close>

theorem n_zero_outcomes:
  "apply_and_concat_none 0 (traced f) (s, calls) = (Inr (), (s, calls))
   \<and> apply_and_concat_none_nb 0 (traced f) (s, calls) = (Inr (), (s, calls))
   \<and> apply_and_concat_one 0 (traced g) (s, calls) = (Inl ValueError, (s, calls))
   \<and> apply_and_concat_multiple 0 (traced h) (s, calls) = (Inr [], (s, calls))
   \<and> (g 0 s = (Inr a, s0) \<longrightarrow>
        apply_and_concat_one_nb junk 0 (traced g) (s, calls)
        = (Inr \<lparr>dtype = dtype (to_2d_one_nb a), nrows = shape0 (to_2d_one_nb a), columns = []\<rparr>,
           (s0, calls @ [0])))
   \<and> (g 0 s = (Inl e, s0) \<longrightarrow>
        apply_and_concat_one_nb junk 0 (traced g) (s, calls) = (Inl e, (s0, calls @ [0])))
   \<and> (h 0 s = (Inr t, s0) \<longrightarrow>
        apply_and_concat_multiple_nb junk 0 (traced h) (s, calls)
        = (Inr (map (\<lambda>b. \<lparr>dtype = dtype b, nrows = shape0 b, columns = []\<rparr>) (to_2d_multiple_nb t)),
           (s0, calls @ [0])))
   \<and> (h 0 s = (Inl e, s0) \<longrightarrow>
        apply_and_concat_multiple_nb junk 0 (traced h) (s, calls) = (Inl e, (s0, calls @ [0])))"
  by (simp add: apply_and_concat_none_def apply_and_concat_none_nb_def apply_and_concat_one_def
      np_column_stack_def np_concatenate_axis1_def apply_and_concat_multiple_def zip_star_def
      apply_and_concat_one_nb_def apply_and_concat_multiple_nb_def traced_apply np_empty_def
      Let_def)

theorem n_zero_outcomes_witness:
  "apply_and_concat_none 0 (traced add_index) (7, []) = (Inr (), (7, []))
   \<and> apply_and_concat_one 0 (traced (pure_apply index_column)) (7 :: nat, []) = (Inl ValueError, (7, []))
   \<and> apply_and_concat_multiple 0 (traced (pure_apply pair_of_columns)) (7 :: nat, []) = (Inr [], (7, []))
   \<and> apply_and_concat_one_nb 99 0 (traced (pure_apply index_column)) (7 :: nat, [])
       = (Inr \<lparr>dtype = NpInt64, nrows = 2, columns = []\<rparr>, (7, [0]))
   \<and> apply_and_concat_multiple_nb 99 0 (traced (pure_apply pair_of_columns)) (7 :: nat, [])
       = (Inr [\<lparr>dtype = NpInt64, nrows = 2, columns = []\<rparr>,
               \<lparr>dtype = NpInt64, nrows = 2, columns = []\<rparr>], (7, [0]))"
proof -
  have g0: "pure_apply index_column 0 (7 :: nat) = (Inr (index_column 0), 7)"
    by (simp add: pure_apply_def)
  have h0: "pure_apply pair_of_columns 0 (7 :: nat) = (Inr (pair_of_columns 0), 7)"
    by (simp add: pure_apply_def)
  show ?thesis
    using n_zero_outcomes [of add_index 7 "[]" "pure_apply index_column" "pure_apply pair_of_columns"
        "index_column 0" 7 99 _ "pair_of_columns 0"] g0 h0
    by (simp add: index_column_def pair_of_columns_def to_2d_multiple_nb_def expand_dims_axis1_def
        shape0_def)
qed

section \<open>Iterations that break the shape of iteration 0\<close>
















section \<open>The distributed variants\<close>

lemma apply_and_concat_one_run_calls:
  "apply_and_concat_one n f s
   = (case run_calls f [0..<n] s of
        (Inl e, s') \<Rightarrow> (Inl e, s')
      | (Inr rs, s') \<Rightarrow> (np_column_stack (map Array2d (map to_2d rs)), s'))"
  by (simp add: apply_and_concat_one_def one_loop_run_calls split: prod.splits sum.splits)

lemma run_calls_pure_apply: "run_calls (pure_apply g) is s = (Inr (map g is), s)"
  by (induction "is") (simp_all add: pure_apply_def)

lemma map_of_indexed:
  "map_of (map (\<lambda>i. (i, fn i)) xs) i = (if i \<in> set xs then Some (fn i) else None)"
  by (induction xs) simp_all

lemma those_map_Some:
  "\<forall>x\<in>set xs. g x = Some (h x) \<Longrightarrow> those (map g xs) = Some (map h xs)"
  by (induction xs) simp_all

lemma submit_many_ordered:
  assumes "\<forall>i<n. i \<in> set (completion [0..<n])"
  shows "submit_many completion n fn s = (Inr (map fn [0..<n]), s)"
proof -
  have "\<forall>i\<in>set [0..<n]. map_of (completed_tasks completion n fn) i = Some (fn i)"
    using assms by (simp add: completed_tasks_def map_of_indexed)
  then have "those (map (map_of (completed_tasks completion n fn)) [0..<n]) = Some (map fn [0..<n])"
    by (rule those_map_Some)
  then show ?thesis
    by (simp add: submit_many_def)
qed

text \<open>
  C4. The results are brought into ascending index order before they are concatenated:
  \<^verbatim>\<open>run_ntimes_using_ray\<close>, as the specification gives it, returns them by index for every
  order in which the tasks complete, and \<^verbatim>\<open>apply_and_concat_one_ray\<close> stacks the list it
  is handed. So whenever every submitted task completes, in whatever order, the
  distributed executor has the outcome of the sequential executor on the same inputs. In
  terms of the code alone: whenever the helper call has the outcome of the \<open>n\<close> calls
  made in ascending index order, the two executors agree.
\<close>

theorem apply_and_concat_one_ray_in_order:
  "(run_ntimes_using_ray s = run_calls f [0..<n] s
      \<longrightarrow> apply_and_concat_one_ray run_ntimes_using_ray s = apply_and_concat_one n f s)
   \<and> ((\<forall>i<n. i \<in> set (completion [0..<n]))
      \<longrightarrow> submit_many completion n g s = (Inr (map g [0..<n]), s)
        \<and> apply_and_concat_one_ray (submit_many completion n g) s
            = apply_and_concat_one n (pure_apply g) s)"
proof (intro conjI impI)
  assume "run_ntimes_using_ray s = run_calls f [0..<n] s"
  then show "apply_and_concat_one_ray run_ntimes_using_ray s = apply_and_concat_one n f s"
    by (simp add: apply_and_concat_one_ray_def apply_and_concat_one_run_calls)
next
  assume all: "\<forall>i<n. i \<in> set (completion [0..<n])"
  then show "submit_many completion n g s = (Inr (map g [0..<n]), s)"
    by (rule submit_many_ordered)
  then show "apply_and_concat_one_ray (submit_many completion n g) s
            = apply_and_concat_one n (pure_apply g) s"
    by (simp add: apply_and_concat_one_ray_def apply_and_concat_one_run_calls run_calls_pure_apply)
qed

theorem apply_and_concat_one_ray_in_order_witness:
  "completed_tasks rev 3 index_column = [(2, index_column 2), (1, index_column 1), (0, index_column 0)]
   \<and> submit_many rev 3 index_column () = (Inr [index_column 0, index_column 1, index_column 2], ())
   \<and> apply_and_concat_one_ray (submit_many rev 3 index_column) ()
     = apply_and_concat_one 3 (pure_apply index_column) ()
   \<and> apply_and_concat_one 3 (pure_apply index_column) ()
     = (Inr \<lparr>dtype = NpInt64, nrows = 2, columns = [[0, 10], [1, 11], [2, 12]]\<rparr>, ())"
proof -
  have order: "completed_tasks rev 3 index_column
               = [(2, index_column 2), (1, index_column 1), (0, index_column 0)]"
    by (simp add: completed_tasks_def upt_0_3)
  have lt3: "i < 3 \<longleftrightarrow> i = 0 \<or> i = 1 \<or> i = 2" for i :: nat
    by auto
  have all: "\<forall>i<3. i \<in> set (rev [0..<3])"
    by (simp add: upt_0_3 lt3)
  have seq: "apply_and_concat_one 3 (pure_apply index_column) ()
     = (Inr \<lparr>dtype = NpInt64, nrows = 2, columns = [[0, 10], [1, 11], [2, 12]]\<rparr>, ())"
    by (simp add: apply_and_concat_one_run_calls pure_apply_def upt_0_3 index_column_def
        np_column_stack_def np_concatenate_axis1_def concatenated_def shape0_def)
  from apply_and_concat_one_ray_in_order
    [where completion = rev and n = 3 and g = index_column and s = "()"] all
  have "submit_many rev 3 index_column () = (Inr (map index_column [0..<3]), ())"
    and "apply_and_concat_one_ray (submit_many rev 3 index_column) ()
         = apply_and_concat_one 3 (pure_apply index_column) ()"
    by simp_all
  with order seq show ?thesis
    by (simp add: upt_0_3)
qed

end
